theory Spec2Isabelle
  imports Complex_Main "HOL-Library.Word" "HOL-Library.Signed_Division"
begin

unbundle bit_operations_syntax

section \<open>Conventions of the embedding\<close>

text \<open>
  The two programs of the repository are \<^verbatim>\<open>d2s.c\<close> (data to sound, the encoder) and
  \<^verbatim>\<open>s2d.c\<close> (sound to data, the decoder).

  Integers are modelled with their C widths: \<^verbatim>\<open>short\<close> and \<^verbatim>\<open>int16_t\<close> as
  \<^typ>\<open>16 word\<close> read with \<^const>\<open>sint\<close>, \<^verbatim>\<open>uint16_t\<close> as \<^typ>\<open>16 word\<close> read with
  \<^const>\<open>uint\<close>, \<^verbatim>\<open>unsigned\<close> and \<^verbatim>\<open>uint32_t\<close> as \<^typ>\<open>32 word\<close>. Where C promotes the
  operands to \<^verbatim>\<open>int\<close> the arithmetic is done on \<^typ>\<open>int\<close> and the result is converted
  back with \<^const>\<open>word_of_int\<close> (wrap-around) where C stores it in a narrow field.
  C's \<^verbatim>\<open>/\<close> on \<^verbatim>\<open>int\<close> truncates towards zero: it is \<open>sdiv\<close>.
\<close>

definition c_trunc :: "real \<Rightarrow> int" where
  \<comment> \<open>conversion of a floating value to an integer type: the fraction is dropped\<close>
  "c_trunc x = (if 0 \<le> x then \<lfloor>x\<rfloor> else \<lceil>x\<rceil>)"

definition c_round :: "real \<Rightarrow> int" where
  \<comment> \<open>\<^verbatim>\<open>round\<close>, \<^verbatim>\<open>roundf\<close> of the C library: to nearest, halfway cases away from zero\<close>
  "c_round x = (if 0 \<le> x then \<lfloor>x + 1/2\<rfloor> else - \<lfloor>- x + 1/2\<rfloor>)"

text \<open>
  The conversion of a floating value to an integer type is defined by C only when the
  truncated value fits the type. Where the program converts to an unsigned type, the
  model returns \<open>Undefined_conversion\<close> for the values that do not fit.
\<close>

datatype c_undefined = Undefined_conversion

text \<open>
  Output written piece by piece: the concatenation of the pieces, or the first undefined
  operation met.
\<close>

fun outputs :: "('e + 'a list) list \<Rightarrow> 'e + 'a list" where
  "outputs [] = Inr []"
| "outputs (x # xs) =
     (case x of
        Inl e \<Rightarrow> Inl e
      | Inr a \<Rightarrow> (case outputs xs of Inl e \<Rightarrow> Inl e | Inr as \<Rightarrow> Inr (a @ as)))"

subsection \<open>Floating-point arithmetic\<close>

text \<open>
  A finite \<^verbatim>\<open>float\<close> or \<^verbatim>\<open>double\<close> value is the real number it denotes. What the
  platform does to the exact result of an operation is a parameter of the model, an
  \<open>arithmetic\<close>:

    \<^item> \<open>to_float\<close> and \<open>to_double\<close> round a real number to the format \<^verbatim>\<open>float\<close> and
      \<^verbatim>\<open>double\<close>; every operation of the decoder whose result C rounds to one of the
      two formats is followed by the rounding of that format, each operation on its own
      (\<^verbatim>\<open>FLT_EVAL_METHOD\<close> 0, and no contraction of a product and a sum into one
      operation);
    \<^item> \<open>M_PI\<close> is the value of the macro \<^verbatim>\<open>M_PI\<close>, a \<^verbatim>\<open>double\<close>;
    \<^item> \<open>sin_double\<close> is \<^verbatim>\<open>sin\<close> on \<^verbatim>\<open>double\<close> and \<open>atan2_float\<close> is \<^verbatim>\<open>atan2f\<close>, which
      \<^verbatim>\<open>tgmath.h\<close> selects for \<^verbatim>\<open>atan2\<close> on two \<^verbatim>\<open>float\<close> arguments, as the C library
      of the platform computes them.

  Conversions that lose nothing in IEEE binary32 are written without a rounding: those
  of the integer constants \<open>2\<close>, \<open>25\<close>, \<open>1024\<close> and \<open>2^31\<close>, of a \<^verbatim>\<open>short\<close>, of the product
  \<^verbatim>\<open>(f+1)*fourier->i\<close> (at most \<open>9 * 32767\<close>), of a difference of two \<^verbatim>\<open>uint16_t\<close>, and of
  a \<^verbatim>\<open>float\<close> to \<^verbatim>\<open>double\<close>. Comparisons are exact.

  Nothing is assumed of an \<open>arithmetic\<close>, so what is proved for every \<open>fp\<close> holds for
  the roundings and the library of the machine that runs the program. Infinities and
  NaN are not values of the model: a quotient with divisor \<open>0\<close> is \<open>0\<close> as in HOL,
  where the program computes an infinity or a NaN.
\<close>

record arithmetic =
  to_float :: "real \<Rightarrow> real"
  to_double :: "real \<Rightarrow> real"
  M_PI :: real
  sin_double :: "real \<Rightarrow> real"
  atan2_float :: "real \<Rightarrow> real \<Rightarrow> real"

text \<open>
  The mathematical function behind \<^verbatim>\<open>atan2(y, x)\<close>: the angle of the point \<open>(x, y)\<close>
  in \<open>(-\<pi>, \<pi>]\<close>.
\<close>

definition atan2 :: "real \<Rightarrow> real \<Rightarrow> real" where
  "atan2 y x =
     (if 0 < x then arctan (y / x)
      else if x < 0 then (if 0 \<le> y then arctan (y / x) + pi else arctan (y / x) - pi)
      else if 0 < y then pi / 2
      else if y < 0 then - (pi / 2)
      else 0)"

text \<open>
  \<open>exact\<close> is the arithmetic that does not round: the results of the operations are
  the real numbers, \<^verbatim>\<open>M_PI\<close> is \<open>\<pi>\<close> and the library functions are the mathematical
  ones. The decoder is run on concrete samples in this arithmetic.
\<close>

definition exact :: arithmetic where
  "exact = \<lparr> to_float = (\<lambda>x. x), to_double = (\<lambda>x. x), M_PI = pi,
             sin_double = sin, atan2_float = atan2 \<rparr>"

text \<open>
  The roundings of IEEE 754, to nearest with ties to even, for results in the normal
  range of the format (no overflow, no subnormal numbers): \<open>round_to_precision p\<close>
  keeps \<open>p\<close> significant bits, \<open>24\<close> for binary32 and \<open>53\<close> for binary64. They are
  used in examples that show where rounding decides what the decoder does.
\<close>

definition round_to_even :: "real \<Rightarrow> int" where
  "round_to_even x =
     (let f = \<lfloor>x\<rfloor>; r = x - real_of_int f
      in if r < 1 / 2 then f else if 1 / 2 < r then f + 1 else if even f then f else f + 1)"

definition round_to_precision :: "nat \<Rightarrow> real \<Rightarrow> real" where
  "round_to_precision p x =
     (if x = 0 then 0
      else (let e = \<lfloor>log 2 \<bar>x\<bar>\<rfloor> - int p + 1
            in real_of_int (round_to_even (x / 2 powr real_of_int e)) * 2 powr real_of_int e))"

definition binary32 :: "real \<Rightarrow> real" where
  "binary32 = round_to_precision 24"

definition binary64 :: "real \<Rightarrow> real" where
  "binary64 = round_to_precision 53"


section \<open>The encoder, \<^verbatim>\<open>d2s.c\<close>\<close>

text \<open>
  The \<^verbatim>\<open>double\<close> arithmetic of the encoder is exact in the model: the samples are the
  real numbers that the formulas of the source denote.
\<close>

definition BIT_COUNT :: nat where
  "BIT_COUNT = 9"

definition SAMPLE_COUNT_MIN :: nat where
  "SAMPLE_COUNT_MIN = BIT_COUNT * 2 + 1"

definition SAMPLE_COUNT :: nat where
  "SAMPLE_COUNT = SAMPLE_COUNT_MIN + 1"

definition SYNC_SIGNAL :: "32 word" where
  "SYNC_SIGNAL = 0x100"

text \<open>
  \<^verbatim>\<open>write_sample\<close>: the amplitude is clamped to \<open>[-1, 1]\<close>, scaled by \<^verbatim>\<open>0x7FFFFFFF\<close>,
  converted to \<^verbatim>\<open>uint32_t\<close> and written as four bytes, least significant first. The
  result is the list of the four bytes given to \<^verbatim>\<open>putchar\<close>. The initialisation
  \<^verbatim>\<open>uint32_t sample = x * 0x7FFFFFFF;\<close> converts a \<^verbatim>\<open>double\<close> to an unsigned type: it has
  a value when the truncated product lies in \<open>[0, 2^32)\<close> and is undefined otherwise, so
  for every product of \<open>-1\<close> or less.
\<close>

definition write_sample :: "real \<Rightarrow> c_undefined + 8 word list" where
  "write_sample x =
     (let x1 = (if x > 1 then 1 else x);
          x2 = (if x1 < - 1 then - 1 else x1);
          v = c_trunc (x2 * 0x7FFFFFFF)
      in if 0 \<le> v \<and> v < 2 ^ 32 then
           (let sample = (word_of_int v :: 32 word)
            in Inr [ucast sample, ucast (drop_bit 8 sample),
                    ucast (drop_bit 16 sample), ucast (drop_bit 24 sample)])
         else Inl Undefined_conversion)"

text \<open>
  \<^verbatim>\<open>print_byte\<close>: for each of the \<^verbatim>\<open>SAMPLE_COUNT\<close> sample times \<open>t\<close> the inner loop runs
  over the bits \<open>b = 0, \<dots>, BIT_COUNT - 1\<close>, skips the bits that are clear in \<open>ch\<close>
  (\<^verbatim>\<open>if(!(ch & (1<<b))) continue;\<close>) and adds
  \<^verbatim>\<open>sin(2.*M_PI*(BIT_COUNT-b)*t/SAMPLE_COUNT)\<close> for the others. \<open>symbol_bits\<close> is the
  list of the bits the loop does not skip, in loop order; \<open>tone_cycles b\<close> is the
  factor \<^verbatim>\<open>BIT_COUNT-b\<close>, the number of full sine periods of that tone in the
  \<^verbatim>\<open>SAMPLE_COUNT\<close> samples of the symbol; \<open>symbol_tones\<close> lists these factors for the
  tones that are summed. The global \<^verbatim>\<open>g_amplitude\<close> is the parameter \<open>amp\<close>.
\<close>

definition symbol_bits :: "32 word \<Rightarrow> nat list" where
  "symbol_bits ch = filter (\<lambda>b. ch AND push_bit b 1 \<noteq> 0) [0..<BIT_COUNT]"

definition tone_cycles :: "nat \<Rightarrow> nat" where
  "tone_cycles b = BIT_COUNT - b"

definition symbol_tones :: "32 word \<Rightarrow> nat list" where
  "symbol_tones ch = map tone_cycles (symbol_bits ch)"

definition tone_sample :: "nat \<Rightarrow> nat \<Rightarrow> real" where
  "tone_sample k t = sin (2 * pi * real k * real t / real SAMPLE_COUNT)"

definition symbol_sample :: "real \<Rightarrow> 32 word \<Rightarrow> nat \<Rightarrow> real" where
  "symbol_sample amp ch t =
     fold (\<lambda>k sample. sample + tone_sample k t) (symbol_tones ch) 0 * amp"

definition print_byte :: "real \<Rightarrow> 32 word \<Rightarrow> c_undefined + 8 word list" where
  "print_byte amp ch =
     outputs (map (\<lambda>t. write_sample (symbol_sample amp ch t)) [0..<SAMPLE_COUNT])"

text \<open>
  \<^verbatim>\<open>main\<close> of the encoder without the WAV header. \<open>frame_symbols\<close> lists the calls of
  \<^verbatim>\<open>print_byte\<close> for the input bytes \<open>bs\<close>, each with the value of \<^verbatim>\<open>g_amplitude\<close> at
  the call; \<open>encode_frame\<close> is what they write.
\<close>

definition frame_symbols :: "8 word list \<Rightarrow> (real \<times> 32 word) list" where
  "frame_symbols bs =
     [(1, 0), (1, 0)]
     @ replicate 8 (1, SYNC_SIGNAL)
     @ [(0.16, 0x3E OR SYNC_SIGNAL)]
     @ map (\<lambda>ch. (0.16, ucast ch OR SYNC_SIGNAL)) bs
     @ [(0.16, 0), (0.16, 0)]"

definition encode_frame :: "8 word list \<Rightarrow> c_undefined + 8 word list" where
  "encode_frame bs = outputs (map (\<lambda>(amp, ch). print_byte amp ch) (frame_symbols bs))"


section \<open>The decoder, \<^verbatim>\<open>s2d.c\<close>\<close>

subsection \<open>Data\<close>

text \<open>
  \<^verbatim>\<open>struct fourier\<close>. Its trailing array \<^verbatim>\<open>sincos_components\<close> is, by the
  \<^verbatim>\<open>static_assert\<close> of the source, the same memory as the member
  \<^verbatim>\<open>sincos_components\<close> of \<^verbatim>\<open>struct decoder\<close>; it is one field here, a list of
  \<open>(sine, cosine)\<close> pairs. Writing to an index outside the list leaves the list as it
  is, and reading there is unspecified: the C program has undefined behaviour in both
  cases, which cannot happen while \<open>frequency_count\<close> is \<^verbatim>\<open>BIT_COUNT\<close> and the list has
  \<^verbatim>\<open>BIT_COUNT\<close> entries.
\<close>

record fourier =
  i :: "16 word"
  frequency_count :: "16 word"
  sample_count :: "16 word"
  sincos_components :: "(real \<times> real) list"

datatype decoder_state =
    DECODER_INIT
  | DECODER_DETECT_POLARITY
  | DECODER_DETECT_WAVE_FIRST_HALF
  | DECODER_DETECT_WAVE_SECOND_HALF
  | DECODER_DETECT_CALIBRATE
  | DECODER_DECODE_DATA
  | DECODER_EOF

fun state_index :: "decoder_state \<Rightarrow> nat" where
  \<comment> \<open>the value of the enumerator, used by \<^verbatim>\<open>decoder->state >= DECODER_DETECT_CALIBRATE\<close>\<close>
  "state_index DECODER_INIT = 0"
| "state_index DECODER_DETECT_POLARITY = 1"
| "state_index DECODER_DETECT_WAVE_FIRST_HALF = 2"
| "state_index DECODER_DETECT_WAVE_SECOND_HALF = 3"
| "state_index DECODER_DETECT_CALIBRATE = 4"
| "state_index DECODER_DECODE_DATA = 5"
| "state_index DECODER_EOF = 6"

record decoder =
  state :: decoder_state
  polarity :: bool
  phase :: "16 word"
  phase2 :: "16 word"
  phase3 :: "16 word"
  baseline :: "16 word"
  signal_max :: "16 word"
  signal_min :: "16 word"
  fourier :: fourier

definition DECODER_RET_EOF :: int where
  "DECODER_RET_EOF = - 1"

definition DECODER_RET_NO_DATA :: int where
  "DECODER_RET_NO_DATA = - 2"

definition DECODER_RET_ERROR :: int where
  "DECODER_RET_ERROR = - 3"

definition TIMING_SIGNAL_THRESHOLD :: int where
  "TIMING_SIGNAL_THRESHOLD = 64"

text \<open>
  The decoder object of \<^verbatim>\<open>main\<close>:
  \<^verbatim>\<open>struct decoder decoder = { .fourier.frequency_count = BIT_COUNT };\<close>,
  every other member zero.
\<close>

definition decoder_init :: decoder where
  "decoder_init =
     \<lparr> state = DECODER_INIT, polarity = False, phase = 0, phase2 = 0, phase3 = 0,
       baseline = 0, signal_max = 0, signal_min = 0,
       fourier = \<lparr> i = 0, frequency_count = 9, sample_count = 0,
                   sincos_components = replicate BIT_COUNT (0, 0) \<rparr> \<rparr>"

subsection \<open>The frequency analyser\<close>

text \<open>
  \<^verbatim>\<open>nsin\<close>: \<^verbatim>\<open>f * 2\<close> is a \<^verbatim>\<open>float\<close>, its product with \<^verbatim>\<open>M_PI\<close> a \<^verbatim>\<open>double\<close>, and the
  \<^verbatim>\<open>double\<close> sine is converted to the \<^verbatim>\<open>float\<close> that is returned. \<^verbatim>\<open>ncos\<close>: the sum
  \<^verbatim>\<open>f+0.25\<close> is a \<^verbatim>\<open>double\<close>, converted to the \<^verbatim>\<open>float\<close> parameter of \<^verbatim>\<open>nsin\<close>.
  \<^verbatim>\<open>sincos_to_phase\<close>: \<^verbatim>\<open>atan2\<close> of two \<^verbatim>\<open>float\<close> arguments is \<^verbatim>\<open>atan2f\<close>; the quotient
  by the \<^verbatim>\<open>double\<close> \<^verbatim>\<open>2*M_PI\<close> is a \<^verbatim>\<open>double\<close>, converted to the \<^verbatim>\<open>float\<close> that is
  returned. \<^verbatim>\<open>quad\<close>: a \<^verbatim>\<open>float\<close> product.
\<close>

definition nsin :: "arithmetic \<Rightarrow> real \<Rightarrow> real" where
  "nsin fp f = to_float fp (sin_double fp (to_double fp (to_float fp (f * 2) * M_PI fp)))"

definition ncos :: "arithmetic \<Rightarrow> real \<Rightarrow> real" where
  "ncos fp f = nsin fp (to_float fp (to_double fp (f + 0.25)))"

definition sincos_to_phase :: "arithmetic \<Rightarrow> real \<Rightarrow> real \<Rightarrow> real" where
  "sincos_to_phase fp x y =
     to_float fp (to_double fp (atan2_float fp y x / to_double fp (2 * M_PI fp)))"

definition quad :: "arithmetic \<Rightarrow> real \<Rightarrow> real" where
  "quad fp x = to_float fp (x * x)"

text \<open>
  The carriers \<open>f = 0, \<dots>, frequency_count - 1\<close> over which the three loops of the
  analyser and the loop of the demodulator run.
\<close>

definition carriers :: "fourier \<Rightarrow> nat list" where
  "carriers fo = [0..<nat (sint (frequency_count fo))]"

text \<open>
  One round of the loop of \<^verbatim>\<open>fourier_add_sample\<close>. \<open>carrier_cycles f\<close> is the factor
  \<^verbatim>\<open>f+1\<close> in \<^verbatim>\<open>(float)((f+1)*fourier->i) / fourier->sample_count\<close>: the number of
  periods of the reference sine of carrier \<open>f\<close> in one window of \<open>sample_count\<close>
  samples. \<open>correlate\<close> is \<^verbatim>\<open>nsin(i) * sample * 25 / fourier->sample_count\<close> (and the
  same with \<^verbatim>\<open>ncos\<close>) for the reference value \<open>r\<close>: two \<^verbatim>\<open>float\<close> products and a \<^verbatim>\<open>float\<close>
  quotient. The \<^verbatim>\<open>+=\<close> is a \<^verbatim>\<open>float\<close> sum.
\<close>

definition carrier_cycles :: "nat \<Rightarrow> nat" where
  "carrier_cycles f = f + 1"

definition correlate :: "arithmetic \<Rightarrow> real \<Rightarrow> real \<Rightarrow> real \<Rightarrow> real" where
  "correlate fp r sample n = to_float fp (to_float fp (to_float fp (r * sample) * 25) / n)"

definition add_carrier ::
  "arithmetic \<Rightarrow> fourier \<Rightarrow> real \<Rightarrow> nat \<Rightarrow> (real \<times> real) list \<Rightarrow> (real \<times> real) list" where
  "add_carrier fp fo sample f sc =
     (let n = real_of_int (sint (sample_count fo));
          pos = to_float fp (real_of_int (int (carrier_cycles f) * sint (i fo)) / n)
      in sc[f := (to_float fp (fst (sc ! f) + correlate fp (nsin fp pos) sample n),
                  to_float fp (snd (sc ! f) + correlate fp (ncos fp pos) sample n))])"

definition fourier_add_sample :: "arithmetic \<Rightarrow> fourier \<Rightarrow> real \<Rightarrow> fourier \<times> bool" where
  "fourier_add_sample fp fo sample =
     (let sc = fold (add_carrier fp fo sample) (carriers fo) (sincos_components fo);
          fo1 = fo\<lparr>sincos_components := sc, i := i fo + 1\<rparr>
      in (fo1, sint (sample_count fo1) \<le> sint (i fo1)))"

definition carrier_power :: "arithmetic \<Rightarrow> fourier \<Rightarrow> nat \<Rightarrow> real" where
  \<comment> \<open>the value written to \<^verbatim>\<open>fph[f]\<close> by \<^verbatim>\<open>fourier_to_frequency\<close>, a \<^verbatim>\<open>float\<close> sum\<close>
  "carrier_power fp fo f =
     to_float fp (quad fp (fst (sincos_components fo ! f))
                  + quad fp (snd (sincos_components fo ! f)))"

definition fourier_to_frequency :: "arithmetic \<Rightarrow> fourier \<Rightarrow> real list" where
  "fourier_to_frequency fp fo = map (carrier_power fp fo) (carriers fo)"

definition fourier_reset :: "fourier \<Rightarrow> fourier" where
  "fourier_reset fo =
     fo\<lparr>sincos_components :=
          fold (\<lambda>f sc. sc[f := (0, 0)]) (carriers fo) (sincos_components fo),
        i := 0\<rparr>"

subsection \<open>The byte demodulator\<close>

text \<open>
  The loop of \<^verbatim>\<open>decoder_decode_byte\<close> that builds \<^verbatim>\<open>byte\<close> from the array
  \<^verbatim>\<open>frequency\<close>: \<^verbatim>\<open>if(frequency[f] > 0.5*0.5) byte |= 1u<<(BIT_COUNT-f-1);\<close>. The
  \<^verbatim>\<open>float\<close> power is compared with the \<^verbatim>\<open>double\<close> \<open>0.25\<close>.
\<close>

definition carrier_bit :: "nat \<Rightarrow> nat" where
  "carrier_bit f = BIT_COUNT - f - 1"

definition threshold_step :: "real list \<Rightarrow> nat \<Rightarrow> 32 word \<Rightarrow> 32 word" where
  "threshold_step frequency f byte =
     (if frequency ! f > 0.5 * 0.5 then byte OR push_bit (carrier_bit f) 1 else byte)"

definition threshold_bits :: "real list \<Rightarrow> nat list \<Rightarrow> 32 word" where
  "threshold_bits frequency fs = fold (threshold_step frequency) fs 0"

definition demodulate :: "arithmetic \<Rightarrow> fourier \<Rightarrow> 32 word" where
  "demodulate fp fo = threshold_bits (fourier_to_frequency fp fo) (carriers fo)"

text \<open>
  \<^verbatim>\<open>decoder->phase = round(phase * decoder->fourier.sample_count);\<close>: the product is a
  \<^verbatim>\<open>float\<close>, \<^verbatim>\<open>round\<close> on a \<^verbatim>\<open>float\<close> is \<^verbatim>\<open>roundf\<close>, and its result is converted to
  \<^verbatim>\<open>int16_t\<close>. The conversion has a value in C when the rounded product lies in
  \<open>[-32768, 32767]\<close>; in the model the stored word is the rounded product modulo \<open>2^16\<close>.
\<close>

definition pilot_phase :: "arithmetic \<Rightarrow> fourier \<Rightarrow> 16 word" where
  \<comment> \<open>the value stored in \<^verbatim>\<open>decoder->phase\<close> when \<^verbatim>\<open>byte & 0x100u\<close> is not zero\<close>
  "pilot_phase fp fo =
     word_of_int (c_round (to_float fp
       (sincos_to_phase fp (fst (sincos_components fo ! 0)) (snd (sincos_components fo ! 0))
        * real_of_int (sint (sample_count fo)))))"

definition decoder_decode_byte :: "arithmetic \<Rightarrow> decoder \<Rightarrow> real \<Rightarrow> decoder \<times> int" where
  "decoder_decode_byte fp d sample =
     (let (fo, complete) = fourier_add_sample fp (fourier d) sample
      in if complete then
           (let byte = demodulate fp fo;
                ph = (if byte AND 0x100 \<noteq> 0 then pilot_phase fp fo else 0);
                d1 = d\<lparr>phase := ph, fourier := fourier_reset fo\<rparr>
            in if byte = 0 then (d1, DECODER_RET_EOF) else (d1, uint (byte AND 0xFF)))
         else (d\<lparr>fourier := fo\<rparr>, DECODER_RET_NO_DATA))"

subsection \<open>The state machine\<close>

definition decoder_update_magnitude :: "decoder \<Rightarrow> 16 word \<Rightarrow> decoder" where
  "decoder_update_magnitude d sample =
     (let d1 = (if signal_max d < sample then d\<lparr>signal_max := sample\<rparr> else d)
      in if signal_min d1 > sample then d1\<lparr>signal_min := sample\<rparr> else d1)"

definition normalized_sample :: "arithmetic \<Rightarrow> decoder \<Rightarrow> 16 word \<Rightarrow> real" where
  \<comment> \<open>\<^verbatim>\<open>fsample\<close>, computed when \<^verbatim>\<open>decoder->state >= DECODER_DETECT_CALIBRATE\<close>:
      a \<^verbatim>\<open>float\<close> quotient and a \<^verbatim>\<open>float\<close> difference\<close>
  "normalized_sample fp d sample =
     (let fsample = to_float fp (real_of_int (uint sample - uint (signal_min d))
                                 / real_of_int (uint (signal_max d) - uint (signal_min d)))
      in if \<not> polarity d then to_float fp (1 - fsample) else fsample)"

definition count_sample :: "decoder \<Rightarrow> decoder" where
  \<comment> \<open>\<^verbatim>\<open>decoder->fourier.sample_count++\<close>\<close>
  "count_sample d = d\<lparr>fourier := (fourier d)\<lparr>sample_count := sample_count (fourier d) + 1\<rparr>\<rparr>"

definition detect_wave_first_half :: "decoder \<Rightarrow> 16 word \<Rightarrow> decoder" where
  "detect_wave_first_half d sample =
     (let d1 = count_sample d;
          diff = (if polarity d1 then uint (signal_max d1) - uint sample
                  else uint sample - uint (signal_min d1));
          d2 = (if diff > uint (signal_max d1) - uint (signal_min d1)
                then d1\<lparr>state := DECODER_DETECT_WAVE_SECOND_HALF\<rparr> else d1)
      in decoder_update_magnitude d2 sample)"

definition detect_polarity :: "decoder \<Rightarrow> 16 word \<Rightarrow> decoder" where
  "detect_polarity d sample =
     (let diff = uint sample - uint (baseline d);
          d1 = decoder_update_magnitude d sample
      in if diff > TIMING_SIGNAL_THRESHOLD \<or> diff < - TIMING_SIGNAL_THRESHOLD then
           detect_wave_first_half
             (d1\<lparr>polarity := (diff > 0), state := DECODER_DETECT_WAVE_FIRST_HALF,
                  signal_max := baseline d1, signal_min := baseline d1\<rparr>) sample
         else d1\<lparr>baseline := word_of_int (uint (baseline d1) + diff sdiv 8)\<rparr>)"

definition detect_wave_second_half :: "decoder \<Rightarrow> 16 word \<Rightarrow> decoder" where
  "detect_wave_second_half d sample =
     (let d1 = decoder_update_magnitude (count_sample d) sample
      in if (uint sample > (uint (signal_max d1) + uint (signal_min d1)) sdiv 2) = polarity d1 then
           d1\<lparr>fourier := (if sint (sample_count (fourier d1)) < int SAMPLE_COUNT_MIN
                           then (fourier d1)\<lparr>sample_count := word_of_int (int SAMPLE_COUNT_MIN)\<rparr>
                           else fourier d1),
               state := DECODER_DETECT_CALIBRATE, phase := 0, phase2 := 0, phase3 := 0\<rparr>
         else d1)"

text \<open>
  The block that follows \<^verbatim>\<open>if(byte >= 0)\<close>, written twice in the source (in the cases
  \<^verbatim>\<open>DECODER_DETECT_CALIBRATE\<close> and \<^verbatim>\<open>DECODER_DECODE_DATA\<close>) with the same text.
\<close>

definition drift_update :: "decoder \<Rightarrow> decoder" where
  "drift_update d =
     (if phase d \<noteq> 0 \<and> phase2 d \<noteq> 0 \<and> phase3 d \<noteq> 0
         \<and> (sint (phase d) < 0) = (sint (phase2 d) < 0)
         \<and> (sint (phase2 d) < 0) = (sint (phase3 d) < 0)
      then d\<lparr>fourier := (fourier d)\<lparr>sample_count :=
                 word_of_int (sint (sample_count (fourier d))
                              - (sint (phase d) + sint (phase2 d) + sint (phase3 d)) sdiv 3)\<rparr>,
              phase2 := 0\<rparr>
      else d\<lparr>phase3 := phase2 d, phase2 := phase d\<rparr>)"

definition extra_step :: "arithmetic \<Rightarrow> decoder \<Rightarrow> real \<Rightarrow> decoder" where
  \<comment> \<open>\<^verbatim>\<open>if(decoder->phase > 0) decoder_decode_byte(decoder, fsample);\<close>\<close>
  "extra_step fp d fsample =
     (if sint (phase d) > 0 then fst (decoder_decode_byte fp d fsample) else d)"

definition detect_calibrate :: "arithmetic \<Rightarrow> decoder \<Rightarrow> real \<Rightarrow> decoder \<times> int" where
  "detect_calibrate fp d fsample =
     (if sint (phase d) < 0 then (d\<lparr>phase := phase d + 1\<rparr>, DECODER_RET_NO_DATA)
      else
        (let (d1, byte) = decoder_decode_byte fp d fsample
         in if byte = DECODER_RET_EOF then (d1\<lparr>state := DECODER_INIT\<rparr>, DECODER_RET_NO_DATA)
            else if byte \<ge> 0 then
              (let d2 = drift_update d1;
                   d3 = (if byte = 0x3E then d2\<lparr>state := DECODER_DECODE_DATA\<rparr> else d2)
               in (extra_step fp d3 fsample, DECODER_RET_NO_DATA))
            else (d1, DECODER_RET_NO_DATA)))"

definition decode_data :: "arithmetic \<Rightarrow> decoder \<Rightarrow> real \<Rightarrow> decoder \<times> int" where
  "decode_data fp d fsample =
     (if sint (phase d) < 0 then (d\<lparr>phase := phase d + 1\<rparr>, DECODER_RET_NO_DATA)
      else
        (let (d1, byte) = decoder_decode_byte fp d fsample;
             d2 = (if byte = DECODER_RET_EOF then d1\<lparr>state := DECODER_EOF\<rparr> else d1);
             d3 = (if byte \<ge> 0 then extra_step fp (drift_update d2) fsample else d2)
         in (d3, byte)))"

definition decoder_decode :: "arithmetic \<Rightarrow> decoder \<Rightarrow> 16 word \<Rightarrow> decoder \<times> int" where
  "decoder_decode fp d sample =
     (case state d of
        DECODER_INIT \<Rightarrow>
          (d\<lparr>baseline := sample, state := DECODER_DETECT_POLARITY,
             fourier := (fourier d)\<lparr>sample_count := 0\<rparr>\<rparr>, DECODER_RET_NO_DATA)
      | DECODER_DETECT_POLARITY \<Rightarrow> (detect_polarity d sample, DECODER_RET_NO_DATA)
      | DECODER_DETECT_WAVE_FIRST_HALF \<Rightarrow> (detect_wave_first_half d sample, DECODER_RET_NO_DATA)
      | DECODER_DETECT_WAVE_SECOND_HALF \<Rightarrow> (detect_wave_second_half d sample, DECODER_RET_NO_DATA)
      | DECODER_DETECT_CALIBRATE \<Rightarrow> detect_calibrate fp d (normalized_sample fp d sample)
      | DECODER_DECODE_DATA \<Rightarrow> decode_data fp d (normalized_sample fp d sample)
      | DECODER_EOF \<Rightarrow> (d, DECODER_RET_EOF))"

text \<open>
  Feeding a list of samples, one call of \<^verbatim>\<open>decoder_decode\<close> each, and keeping the
  decoder.
\<close>

definition feed :: "arithmetic \<Rightarrow> decoder \<Rightarrow> 16 word list \<Rightarrow> decoder" where
  "feed fp d samples = fold (\<lambda>sample d1. fst (decoder_decode fp d1 sample)) samples d"

subsection \<open>The main loop\<close>

text \<open>
  \<^verbatim>\<open>main\<close> of the decoder reads the input in groups of four bytes, each an \<^verbatim>\<open>int32_t\<close>
  (least significant byte first, as the encoder writes them); an incomplete group ends
  the input. \<open>sample_level\<close> is the argument of \<^verbatim>\<open>decoder_decode\<close>:
  \<^verbatim>\<open>(float)x / 0x80000000lu\<close> is a \<^verbatim>\<open>float\<close> quotient of the rounded \<open>x\<close>, and
  \<^verbatim>\<open>(sample+1)/2*SIGNAL_STREANGTH\<close> three \<^verbatim>\<open>float\<close> operations, whose result is converted
  to the \<^verbatim>\<open>uint16_t\<close> parameter.
\<close>

fun pcm_samples :: "8 word list \<Rightarrow> 32 word list" where
  "pcm_samples (b0 # b1 # b2 # b3 # bs) =
     (ucast b0 OR push_bit 8 (ucast b1) OR push_bit 16 (ucast b2) OR push_bit 24 (ucast b3))
     # pcm_samples bs"
| "pcm_samples bs = []"

definition sample_level :: "arithmetic \<Rightarrow> 32 word \<Rightarrow> c_undefined + 16 word" where
  "sample_level fp x =
     (let sample = to_float fp (to_float fp (real_of_int (sint x)) / 0x80000000);
          v = c_trunc (to_float fp (to_float fp (to_float fp (sample + 1) / 2) * 1024))
      in if 0 \<le> v \<and> v < 2 ^ 16 then Inr (word_of_int v) else Inl Undefined_conversion)"

text \<open>
  The loop of \<^verbatim>\<open>main\<close> on the samples \<open>xs\<close>: the bytes given to \<^verbatim>\<open>putchar\<close>, and whether
  the loop was left because the decoder reported the end of the stream.
\<close>

fun decode_stream ::
  "arithmetic \<Rightarrow> decoder \<Rightarrow> 32 word list \<Rightarrow> c_undefined + (8 word list \<times> bool)" where
  "decode_stream fp d [] = Inr ([], False)"
| "decode_stream fp d (x # xs) =
     (case sample_level fp x of
        Inl u \<Rightarrow> Inl u
      | Inr sample \<Rightarrow>
          (let (d1, byte) = decoder_decode fp d sample;
               out = (if byte \<ge> 0 then [word_of_int byte] else [])
           in if byte = DECODER_RET_EOF then Inr (out, True)
              else (case decode_stream fp d1 xs of
                      Inl u \<Rightarrow> Inl u
                    | Inr (bytes, eof) \<Rightarrow> Inr (out @ bytes, eof))))"

text \<open>
  The round trip: the encoder writes a frame for the bytes \<open>bs\<close>, and the decoder, run
  on the samples of that frame from its initial state, writes the bytes \<open>bs\<close> and stops
  at the end of the stream.
\<close>

definition round_trip :: "arithmetic \<Rightarrow> 8 word list \<Rightarrow> bool" where
  "round_trip fp bs =
     (case encode_frame bs of
        Inl u \<Rightarrow> False
      | Inr frame \<Rightarrow> decode_stream fp decoder_init (pcm_samples frame) = Inr (bs, True))"

subsection \<open>Auxiliary notions\<close>

text \<open>
  The normalisation range is open when \<^verbatim>\<open>signal_max - signal_min\<close> exceeds
  \<^verbatim>\<open>TIMING_SIGNAL_THRESHOLD\<close>; \<open>range_inv\<close> asks for it from
  \<^verbatim>\<open>DECODER_DETECT_WAVE_FIRST_HALF\<close> on.
\<close>

definition range_open :: "decoder \<Rightarrow> bool" where
  "range_open d \<longleftrightarrow> TIMING_SIGNAL_THRESHOLD < uint (signal_max d) - uint (signal_min d)"

definition range_inv :: "decoder \<Rightarrow> bool" where
  "range_inv d \<longleftrightarrow> (2 \<le> state_index (state d) \<longrightarrow> range_open d)"

definition tracking :: "decoder \<Rightarrow> bool" where
  \<comment> \<open>the two states in which samples are demodulated\<close>
  "tracking d \<longleftrightarrow> state d = DECODER_DETECT_CALIBRATE \<or> state d = DECODER_DECODE_DATA"

text \<open>
  The drift corrector as the specification words it, to be compared with
  \<open>drift_update\<close>. \<open>d1\<close> is the decoder after the demodulation, with the new
  measurement in \<^verbatim>\<open>phase\<close> and the two earlier ones in \<^verbatim>\<open>phase2\<close> and \<^verbatim>\<open>phase3\<close>;
  \<open>d2\<close> is the decoder after the call. If the three measurements are nonzero and of
  one sign, the window length is decreased by their average and the middle slot of the
  history is zero; otherwise the history is shifted.
\<close>

definition same_sign_nonzero :: "int \<Rightarrow> int \<Rightarrow> int \<Rightarrow> bool" where
  "same_sign_nonzero a b c \<longleftrightarrow> (0 < a \<and> 0 < b \<and> 0 < c) \<or> (a < 0 \<and> b < 0 \<and> c < 0)"

definition drift_correction_spec :: "decoder \<Rightarrow> decoder \<Rightarrow> bool" where
  "drift_correction_spec d1 d2 =
     (let p = sint (phase d1); p2 = sint (phase2 d1); p3 = sint (phase3 d1)
      in if same_sign_nonzero p p2 p3
         then sample_count (fourier d2)
                = sample_count (fourier d1) - word_of_int ((p + p2 + p3) sdiv 3)
              \<and> phase2 d2 = 0
         else phase3 d2 = phase2 d1 \<and> phase2 d2 = phase d1)"

subsection \<open>Concrete runs\<close>

text \<open>
  A short acquisition: the level \<open>1000\<close> is taken as baseline, \<open>1100\<close> exceeds the
  threshold upwards, \<open>999\<close> ends the first half of the wave and \<open>1100\<close> the second. The
  decoder is then in \<^verbatim>\<open>DECODER_DETECT_CALIBRATE\<close> with the range \<open>[999, 1100]\<close> and a
  window of 19 samples, so the level \<open>999\<close> is normalised to \<open>0\<close>, \<open>1100\<close> to \<open>1\<close> and
  \<open>898\<close> to \<open>-1\<close>.
\<close>

definition acquisition :: "16 word list" where
  "acquisition = [1000, 1100, 999, 1100]"

definition locked :: decoder where
  "locked =
     \<lparr> state = DECODER_DETECT_CALIBRATE, polarity = True, phase = 0, phase2 = 0, phase3 = 0,
       baseline = 1000, signal_max = 1100, signal_min = 999,
       fourier = \<lparr> i = 0, frequency_count = 9, sample_count = 19,
                   sincos_components = replicate 9 (0, 0) \<rparr> \<rparr>"

text \<open>
  \<open>tuned p p2 p3\<close> is that decoder with a given phase history; \<open>in_window d k c\<close> is
  \<open>d\<close> at sample index \<open>k\<close> of a window, every carrier holding the accumulators
  \<open>(0, c)\<close>; \<open>retuned\<close> is the decoder after one drift correction from 19 to 24
  samples.
\<close>

definition tuned :: "16 word \<Rightarrow> 16 word \<Rightarrow> 16 word \<Rightarrow> decoder" where
  "tuned p p2 p3 = locked\<lparr>phase := p, phase2 := p2, phase3 := p3\<rparr>"

definition in_window :: "decoder \<Rightarrow> 16 word \<Rightarrow> real \<Rightarrow> decoder" where
  "in_window d k c = d\<lparr>fourier := (fourier d)\<lparr>i := k, sincos_components := replicate 9 (0, c)\<rparr>\<rparr>"

definition retuned :: decoder where
  "retuned = (in_window (tuned (- 5) 0 (- 5)) 0 0)
          \<lparr>fourier := (fourier (in_window (tuned (- 5) 0 (- 5)) 0 0))\<lparr>sample_count := 24\<rparr>\<rparr>"

text \<open>
  Pieces of input. \<open>spike_up\<close> and \<open>spike_down\<close> are the first 18 samples of a window
  whose only signal is its first sample; \<open>closing\<close> ends such a window and runs through
  the first 18 samples of a window without signal; \<open>gap\<close> ends such a window and
  supplies the five samples that a measured phase of \<open>-5\<close> skips.
\<close>

definition spike_up :: "16 word list" where
  "spike_up = 1100 # replicate 17 999"

definition spike_down :: "16 word list" where
  "spike_down = 898 # replicate 17 999"

definition closing :: "16 word list" where
  "closing = 999 # replicate 17 999"

definition gap :: "16 word list" where
  "gap = 999 # replicate 5 999"

definition trace_pilot :: "16 word list" where
  "trace_pilot = acquisition @ spike_up"

definition trace_silent :: "16 word list" where
  "trace_silent = acquisition @ spike_up @ closing"

definition trace_drift :: "16 word list" where
  "trace_drift = acquisition @ spike_down @ gap @ spike_down @ gap @ spike_down"

text \<open>
  A run in which every window ends with a full-scale sample. \<open>primed\<close> describes
  the decoder one sample into such a window: the full-scale sample that ended the
  previous window was added again as the first sample of this one.
\<close>

definition primed :: "decoder \<Rightarrow> bool" where
  "primed d \<longleftrightarrow>
     tracking d \<and> polarity d \<and> signal_min d = 999 \<and> signal_max d = 1100
     \<and> i (fourier d) = 1 \<and> frequency_count (fourier d) = 9 \<and> sample_count (fourier d) = 19
     \<and> sincos_components (fourier d) = replicate 9 (0, 25 / 19)"

definition round_up :: "16 word list" where
  "round_up = replicate 17 999 @ [1100]"

definition trace_shrink :: "16 word list" where
  "trace_shrink = acquisition @ [1100] @ round_up @ round_up @ round_up"



section \<open>Arithmetics\<close>

subsection \<open>The arithmetic without rounding\<close>

lemma exact_simps [simp]:
  "to_float exact x = x" "to_double exact x = x" "M_PI exact = pi"
  "sin_double exact = sin" "atan2_float exact = atan2"
  by (simp_all add: exact_def)

lemma nsin_exact: "nsin exact f = sin (f * 2 * pi)"
  by (simp add: nsin_def)

lemma ncos_exact: "ncos exact f = nsin exact (f + 0.25)"
  by (simp add: ncos_def)

lemma sincos_to_phase_exact: "sincos_to_phase exact x y = atan2 y x / (2 * pi)"
  by (simp add: sincos_to_phase_def)

lemma quad_exact: "quad exact x = x * x"
  by (simp add: quad_def)

lemma add_carrier_exact:
  "add_carrier exact fo sample f sc =
     (let n = real_of_int (sint (sample_count fo));
          pos = real_of_int (int (carrier_cycles f) * sint (i fo)) / n
      in sc[f := (fst (sc ! f) + nsin exact pos * sample * 25 / n,
                  snd (sc ! f) + ncos exact pos * sample * 25 / n)])"
  by (simp add: add_carrier_def correlate_def)

lemma carrier_power_exact:
  "carrier_power exact fo f =
     quad exact (fst (sincos_components fo ! f)) + quad exact (snd (sincos_components fo ! f))"
  by (simp add: carrier_power_def)

lemma pilot_phase_exact:
  "pilot_phase exact fo =
     word_of_int (c_round (sincos_to_phase exact (fst (sincos_components fo ! 0))
                                            (snd (sincos_components fo ! 0))
                           * real_of_int (sint (sample_count fo))))"
  by (simp add: pilot_phase_def)

lemma normalized_sample_exact:
  "normalized_sample exact d sample =
     (let fsample = real_of_int (uint sample - uint (signal_min d))
                    / real_of_int (uint (signal_max d) - uint (signal_min d))
      in if \<not> polarity d then 1 - fsample else fsample)"
  by (simp add: normalized_sample_def Let_def)

subsection \<open>IEEE rounding\<close>

lemma floor_log2:
  assumes "2 powr real_of_int k \<le> x" and "x < 2 powr real_of_int (k + 1)"
  shows "\<lfloor>log 2 x\<rfloor> = k"
proof -
  have pos: "0 < x"
    using assms(1) powr_gt_zero [of 2 "real_of_int k"] by linarith
  have "real_of_int k \<le> log 2 x"
    using assms(1) pos by (simp add: le_log_iff)
  moreover have "log 2 x < real_of_int (k + 1)"
    using assms(2) pos by (simp add: log_less_iff)
  ultimately show ?thesis
    by (intro floor_unique) simp_all
qed

text \<open>The rounding of a number whose magnitude lies in \<open>[2^k, 2^(k+1))\<close>.\<close>

lemma round_in_binade:
  assumes "2 powr real_of_int k \<le> \<bar>x\<bar>" and "\<bar>x\<bar> < 2 powr real_of_int (k + 1)"
  shows "round_to_precision p x
           = real_of_int (round_to_even (x / 2 powr real_of_int (k - int p + 1)))
             * 2 powr real_of_int (k - int p + 1)"
proof -
  have "x \<noteq> 0"
    using assms(1) powr_gt_zero [of 2 "real_of_int k"] by auto
  then show ?thesis
    unfolding round_to_precision_def floor_log2 [OF assms] by (simp add: Let_def)
qed

lemma binary32_quarter: "binary32 (1 / 4) = 1 / 4"
  unfolding binary32_def using round_in_binade [of "- 2" "1 / 4" 24]
  by (simp add: round_to_even_def powr_neg_numeral)

lemma binary32_tiny: "binary32 (1 / 2 ^ 40) = 1 / 2 ^ 40"
  unfolding binary32_def using round_in_binade [of "- 40" "1 / 2 ^ 40" 24]
  by (simp add: round_to_even_def powr_neg_numeral)

lemma binary32_above_quarter: "binary32 (1 / 4 + 1 / 2 ^ 40) = 1 / 4"
  unfolding binary32_def using round_in_binade [of "- 2" "1 / 4 + 1 / 2 ^ 40" 24]
  by (simp add: round_to_even_def powr_neg_numeral)

lemma binary64_fraction:
  "binary64 (- (13176795 / 2 ^ 22) / (2 * (884279719003555 / 2 ^ 48)))
     = - (4503599752694573 / 2 ^ 53)"
  unfolding binary64_def
  using round_in_binade [of "- 1" "- (13176795 / 2 ^ 22) / (2 * (884279719003555 / 2 ^ 48))" 53]
  by (simp add: round_to_even_def powr_neg_numeral)

lemma binary32_fraction: "binary32 (- (4503599752694573 / 2 ^ 53)) = - (1 / 2)"
  unfolding binary32_def
  using round_in_binade [of "- 1" "- (4503599752694573 / 2 ^ 53)" 24]
  by (simp add: round_to_even_def powr_neg_numeral)

lemma binary32_offset: "binary32 (- (19 / 2)) = - (19 / 2)"
  unfolding binary32_def
  using round_in_binade [of 3 "- (19 / 2)" 24]
  by (simp add: round_to_even_def powr_neg_numeral)

section \<open>Properties of the encoder\<close>

subsection \<open>Clamping of the amplitude\<close>

lemma write_sample_one: "write_sample 1 = Inr [0xFF, 0xFF, 0xFF, 0x7F]"
  by (simp add: write_sample_def c_trunc_def Let_def drop_bit_eq_div)

lemma write_sample_minus_one: "write_sample (- 1) = Inl Undefined_conversion"
  by (simp add: write_sample_def c_trunc_def Let_def)

text \<open>
  C9. For every amplitude above \<open>1\<close> \<^verbatim>\<open>write_sample\<close> writes the bytes it writes for
  \<open>1\<close>, the sample \<^verbatim>\<open>0x7FFFFFFF\<close>. For an amplitude below \<open>-1\<close> the clamped product is
  \<open>-2147483647\<close>, as it is for \<open>-1\<close> itself, and its conversion to \<^verbatim>\<open>uint32_t\<close> is
  undefined: the program determines no sample, neither for the amplitude nor for the
  boundary value it is clamped to.
\<close>

theorem write_sample_clamps:
  "(1 < x \<longrightarrow> write_sample x = write_sample 1 \<and> write_sample x = Inr [0xFF, 0xFF, 0xFF, 0x7F])
   \<and> (x < - 1 \<longrightarrow> write_sample x = Inl Undefined_conversion)
   \<and> write_sample (- 1) = Inl Undefined_conversion"
  using write_sample_one write_sample_minus_one
  by (simp add: write_sample_def)

theorem write_sample_clamps_witness:
  "(1 :: real) < 3 / 2 \<and> write_sample (3 / 2) = Inr [0xFF, 0xFF, 0xFF, 0x7F]
   \<and> (- 2 :: real) < - 1 \<and> write_sample (- 2) = Inl Undefined_conversion"
  using write_sample_clamps [of "3 / 2"] write_sample_clamps [of "- 2"]
  by (simp add: write_sample_one)

subsection \<open>Tones and bits\<close>

lemma test_bit_mask: "(ch AND push_bit b 1 \<noteq> 0) = bit (ch :: 32 word) b"
  by (simp only: bit_iff_and_push_bit_not_eq_0)

lemma symbol_bits_iff: "b \<in> set (symbol_bits ch) \<longleftrightarrow> b < 9 \<and> bit ch b"
  unfolding symbol_bits_def test_bit_mask by (auto simp: BIT_COUNT_def)

text \<open>The tone of \<open>k\<close> periods is summed exactly when bit \<open>9 - k\<close> of the symbol is set.\<close>

lemma symbol_tones_iff:
  "k \<in> set (symbol_tones ch) \<longleftrightarrow> 1 \<le> k \<and> k \<le> 9 \<and> bit ch (9 - k)"
proof
  assume "k \<in> set (symbol_tones ch)"
  then obtain b where b: "b \<in> set (symbol_bits ch)" "k = tone_cycles b"
    by (auto simp: symbol_tones_def)
  then have "b < 9" "bit ch b"
    by (simp_all add: symbol_bits_iff)
  with b(2) show "1 \<le> k \<and> k \<le> 9 \<and> bit ch (9 - k)"
    by (simp add: tone_cycles_def BIT_COUNT_def)
next
  assume a: "1 \<le> k \<and> k \<le> 9 \<and> bit ch (9 - k)"
  then have "9 - k \<in> set (symbol_bits ch)"
    by (simp add: symbol_bits_iff)
  moreover from a have "tone_cycles (9 - k) = k"
    by (simp add: tone_cycles_def BIT_COUNT_def)
  ultimately show "k \<in> set (symbol_tones ch)"
    unfolding symbol_tones_def by (metis image_eqI set_map)
qed

lemma pilot_bit_of_sync: "bit (0x100 :: 32 word) 8"
  by (simp add: bit_iff_odd_drop_bit drop_bit_eq_div)

lemma pilot_only_tones: "symbol_tones 0x100 = [1]"
  by (simp add: symbol_tones_def symbol_bits_def tone_cycles_def BIT_COUNT_def upt_rec)

text \<open>
  C2, as stated: the tone of \<open>9 - f\<close> periods per window is present if and only if bit
  \<open>8 - f\<close> of the symbol is set. It fails for the pilot-only symbol \<^verbatim>\<open>0x100\<close> at
  \<open>f = 0\<close>: bit 8 is set, and the only tone of that symbol has one period, not nine.
\<close>

theorem tone_bit_claim_counterexample:
  "symbol_tones 0x100 = [1]
   \<and> \<not> (9 - 0 \<in> set (symbol_tones 0x100) \<longleftrightarrow> bit (0x100 :: 32 word) (8 - 0))"
  using pilot_bit_of_sync pilot_only_tones by simp

text \<open>
  C2, amended: for every symbol value and every carrier \<open>f\<close> in \<open>0..8\<close>, the analyser
  correlates carrier \<open>f\<close> with a reference of \<open>f + 1\<close> periods per window, the
  demodulator sets bit \<open>8 - f\<close> for it, and the encoder sums the tone of \<open>f + 1\<close>
  periods per window if and only if bit \<open>8 - f\<close> of the symbol is set.
\<close>

theorem tone_bit_mapping:
  "f \<le> 8 \<Longrightarrow>
     carrier_cycles f = f + 1 \<and> carrier_bit f = 8 - f
     \<and> (f + 1 \<in> set (symbol_tones ch) \<longleftrightarrow> bit ch (8 - f))"
  by (simp add: symbol_tones_iff carrier_cycles_def carrier_bit_def BIT_COUNT_def)

theorem tone_bit_mapping_witness:
  "(0 :: nat) \<le> 8 \<and> carrier_cycles 0 = 1 \<and> carrier_bit 0 = 8
   \<and> 1 \<in> set (symbol_tones 0x100) \<and> bit (0x100 :: 32 word) 8"
  using tone_bit_mapping [of 0 "0x100"] pilot_bit_of_sync by simp


subsection \<open>The frame\<close>

lemma outputs_undefined:
  "Inl Undefined_conversion \<in> set xs \<Longrightarrow> outputs xs = Inl Undefined_conversion"
proof (induction xs)
  case Nil
  then show ?case by simp
next
  case (Cons x xs)
  show ?case
  proof (cases x)
    case (Inl e)
    then show ?thesis by (cases e) simp
  next
    case (Inr a)
    with Cons show ?thesis by auto
  qed
qed

text \<open>
  The pilot tone alone, at full amplitude, is \<open>-1\<close> at the sample time \<open>15\<close> of the
  symbol, three quarters of its period.
\<close>

lemma pilot_trough: "symbol_sample 1 SYNC_SIGNAL 15 = - 1"
proof -
  have "2 * pi * real 1 * real 15 / real SAMPLE_COUNT = 3 / 2 * pi"
    by (simp add: SAMPLE_COUNT_def SAMPLE_COUNT_MIN_def BIT_COUNT_def)
  then show ?thesis
    unfolding symbol_sample_def SYNC_SIGNAL_def pilot_only_tones tone_sample_def
    by (simp only: fold_simps id_apply comp_apply sin_3over2_pi) simp
qed

lemma print_byte_sync: "print_byte 1 SYNC_SIGNAL = Inl Undefined_conversion"
proof -
  have "(15 :: nat) \<in> set [0..<SAMPLE_COUNT]"
    by (simp add: SAMPLE_COUNT_def SAMPLE_COUNT_MIN_def BIT_COUNT_def)
  then have "write_sample (symbol_sample 1 SYNC_SIGNAL 15)
               \<in> set (map (\<lambda>t. write_sample (symbol_sample 1 SYNC_SIGNAL t)) [0..<SAMPLE_COUNT])"
    unfolding set_map by (rule imageI)
  then show ?thesis
    unfolding print_byte_def pilot_trough write_sample_minus_one by (rule outputs_undefined)
qed

text \<open>
  Every frame contains the calibration symbols, so the encoder has no defined output
  for any input.
\<close>

lemma encode_frame_undefined: "encode_frame bs = Inl Undefined_conversion"
proof -
  have "(1, SYNC_SIGNAL) \<in> set (frame_symbols bs)"
    by (simp add: frame_symbols_def)
  then have "(\<lambda>(amp, ch). print_byte amp ch) (1, SYNC_SIGNAL)
               \<in> set (map (\<lambda>(amp, ch). print_byte amp ch) (frame_symbols bs))"
    unfolding set_map by (rule imageI)
  then have "Inl Undefined_conversion
               \<in> set (map (\<lambda>(amp, ch). print_byte amp ch) (frame_symbols bs))"
    by (simp only: prod.case print_byte_sync)
  then show ?thesis
    unfolding encode_frame_def by (rule outputs_undefined)
qed


subsection \<open>Clipping\<close>

text \<open>
  Bounds for the sine and the cosine from the Taylor polynomial of the sine, and for
  \<open>\<pi>\<close> from \<open>sin (\<pi>/6) = 1/2\<close>.
\<close>

lemma sum5: "(\<Sum>m<5. g m) = g 0 + g 1 + g 2 + g 3 + g 4" for g :: "nat \<Rightarrow> real"
  by (simp add: eval_nat_numeral)

lemma sin_coeffs:
  "sin_coeff 0 = 0" "sin_coeff 1 = 1" "sin_coeff 2 = 0" "sin_coeff 3 = - (1 / 6)" "sin_coeff 4 = 0"
  by (simp_all add: sin_coeff_def fact_numeral)

lemma sin_taylor_sum: "(\<Sum>m<5. sin_coeff m * x ^ m) = x - x ^ 3 / 6" for x :: real
  unfolding sum5 sin_coeffs by simp

lemma sin_taylor_error: "inverse (fact 5) * \<bar>x\<bar> ^ 5 = \<bar>x\<bar> ^ 5 / 120" for x :: real
  by (simp add: fact_numeral)

lemma sin_taylor:
  fixes x :: real
  shows "\<bar>sin x - (x - x ^ 3 / 6)\<bar> \<le> \<bar>x\<bar> ^ 5 / 120"
  using Maclaurin_sin_bound [of x 5] unfolding sin_taylor_sum sin_taylor_error .

lemma cubic_mono:
  fixes x y :: real
  assumes "0 \<le> x" "x \<le> y" "y \<le> 1"
  shows "x - x ^ 3 / 6 \<le> y - y ^ 3 / 6"
proof -
  have e: "(y - y ^ 3 / 6) - (x - x ^ 3 / 6) = (y - x) * (1 - (x * x + x * y + y * y) / 6)"
    by (simp add: power3_eq_cube field_simps)
  have "x * x \<le> 1 * 1" "x * y \<le> 1 * 1" "y * y \<le> 1 * 1"
    using assms by (intro mult_mono; simp)+
  then have "0 \<le> 1 - (x * x + x * y + y * y) / 6"
    by simp
  with assms(2) have "0 \<le> (y - x) * (1 - (x * x + x * y + y * y) / 6)"
    by (intro mult_nonneg_nonneg) simp_all
  with e show ?thesis
    by linarith
qed

lemma sin_lower:
  fixes x l u :: real
  assumes "0 \<le> l" "l \<le> x" "x \<le> u" "u \<le> 1"
  shows "l - l ^ 3 / 6 - u ^ 5 / 120 \<le> sin x"
proof -
  have "x - x ^ 3 / 6 - \<bar>x\<bar> ^ 5 / 120 \<le> sin x"
    using sin_taylor [of x] by linarith
  moreover have "\<bar>x\<bar> ^ 5 \<le> u ^ 5"
    using assms by (intro power_mono) simp_all
  moreover have "l - l ^ 3 / 6 \<le> x - x ^ 3 / 6"
    using assms by (intro cubic_mono) simp_all
  ultimately show ?thesis
    by linarith
qed

lemma sin_upper:
  fixes x u :: real
  assumes "0 \<le> x" "x \<le> u" "u \<le> 1"
  shows "sin x \<le> u - u ^ 3 / 6 + u ^ 5 / 120"
proof -
  have "sin x \<le> x - x ^ 3 / 6 + \<bar>x\<bar> ^ 5 / 120"
    using sin_taylor [of x] by linarith
  moreover have "\<bar>x\<bar> ^ 5 \<le> u ^ 5"
    using assms by (intro power_mono) simp_all
  moreover have "x - x ^ 3 / 6 \<le> u - u ^ 3 / 6"
    using assms by (intro cubic_mono) simp_all
  ultimately show ?thesis
    by linarith
qed

lemma cos_lower:
  fixes x u :: real
  assumes "0 \<le> x" "x \<le> u"
  shows "1 - u ^ 2 / 2 \<le> cos x"
proof -
  have h: "0 \<le> x / 2" using assms by simp
  have "sin (x / 2) \<le> x / 2"
    using h by (rule sin_x_le_x)
  moreover have "- (x / 2) \<le> sin (x / 2)"
    using h by (rule sin_x_ge_neg_x)
  ultimately have "\<bar>sin (x / 2)\<bar> \<le> x / 2"
    by linarith
  then have "\<bar>sin (x / 2)\<bar> ^ 2 \<le> (x / 2) ^ 2"
    by (intro power_mono) simp_all
  then have s: "(sin (x / 2)) ^ 2 \<le> x ^ 2 / 4"
    by (simp add: power_divide)
  have "cos x = 1 - 2 * (sin (x / 2)) ^ 2"
    using cos_double_sin [of "x / 2"] by simp
  moreover have "x ^ 2 \<le> u ^ 2"
    using assms by (intro power_mono) simp_all
  ultimately show ?thesis
    using s by linarith
qed

lemma pi_bounds: "31 / 10 < pi \<and> pi < 32 / 10"
proof -
  have half: "sin (pi / 6) = 1 / 2"
    by (rule sin_30)
  have lo: "31 / 10 < pi"
  proof (rule ccontr)
    assume "\<not> 31 / 10 < pi"
    then have "pi / 6 \<le> 31 / 60"
      by simp
    moreover have "0 \<le> pi / 6"
      by simp
    ultimately have "sin (pi / 6) \<le> 31 / 60 - (31 / 60) ^ 3 / 6 + (31 / 60) ^ 5 / 120"
      by (intro sin_upper) simp_all
    also have "\<dots> < 1 / 2"
      by (simp add: power_divide eval_nat_numeral)
    finally show False
      using half by simp
  qed
  have hi: "pi < 32 / 10"
  proof (rule ccontr)
    assume "\<not> pi < 32 / 10"
    then have "8 / 15 \<le> pi / 6"
      by simp
    moreover have "pi / 6 \<le> 2 / 3"
      using pi_less_4 by simp
    ultimately have "8 / 15 - (8 / 15) ^ 3 / 6 - (2 / 3) ^ 5 / 120 \<le> sin (pi / 6)"
      by (intro sin_lower) simp_all
    moreover have "1 / 2 < 8 / 15 - (8 / 15) ^ 3 / 6 - (2 / 3) ^ 5 / (120 :: real)"
      by (simp add: power_divide eval_nat_numeral)
    ultimately show False
      using half by simp
  qed
  from lo hi show ?thesis ..
qed

lemma tone_sum_bound:
  "25 / 4 < sin (9 * pi / 10) + sin (8 * pi / 10) + sin (7 * pi / 10) + sin (6 * pi / 10)
            + sin (5 * pi / 10) + sin (4 * pi / 10) + sin (3 * pi / 10) + sin (2 * pi / 10)
            + sin (pi / 10)"
proof -
  have b: "31 / 100 < pi / 10" "pi / 10 < 32 / 100"
    using pi_bounds by simp_all
  have "305 / 1000 \<le> 31 / 100 - (31 / 100) ^ 3 / 6 - (32 / 100) ^ 5 / (120 :: real)"
    by (simp add: power_divide eval_nat_numeral)
  moreover have "31 / 100 - (31 / 100) ^ 3 / 6 - (32 / 100) ^ 5 / 120 \<le> sin (pi / 10)"
    using b by (intro sin_lower) simp_all
  ultimately have s1: "305 / 1000 \<le> sin (pi / 10)"
    by linarith
  have "5793 / 10000 \<le> 62 / 100 - (62 / 100) ^ 3 / 6 - (64 / 100) ^ 5 / (120 :: real)"
    by (simp add: power_divide eval_nat_numeral)
  moreover have "62 / 100 - (62 / 100) ^ 3 / 6 - (64 / 100) ^ 5 / 120 \<le> sin (2 * pi / 10)"
    using b by (intro sin_lower) simp_all
  ultimately have s2: "5793 / 10000 \<le> sin (2 * pi / 10)"
    by linarith
  have "1 - (32 / 100) ^ 2 / 2 \<le> cos (pi / 10)"
    using b by (intro cos_lower) simp_all
  then have c1: "9488 / 10000 \<le> cos (pi / 10)"
    by (simp add: power_divide eval_nat_numeral)
  have "1 - (64 / 100) ^ 2 / 2 \<le> cos (2 * pi / 10)"
    using b by (intro cos_lower) simp_all
  then have c2: "7952 / 10000 \<le> cos (2 * pi / 10)"
    by (simp add: power_divide eval_nat_numeral)
  have "sin (4 * pi / 10) = cos (pi / 10)"
    using sin_cos_eq [of "4 * pi / 10"] by (simp add: field_simps)
  moreover have "sin (3 * pi / 10) = cos (2 * pi / 10)"
    using sin_cos_eq [of "3 * pi / 10"] by (simp add: field_simps)
  moreover have "sin (5 * pi / 10) = 1"
    by simp
  moreover have "sin (9 * pi / 10) = sin (pi / 10)"
    using sin_pi_minus [of "pi / 10"] by (simp add: field_simps)
  moreover have "sin (8 * pi / 10) = sin (2 * pi / 10)"
    using sin_pi_minus [of "2 * pi / 10"] by (simp add: field_simps)
  moreover have "sin (7 * pi / 10) = cos (2 * pi / 10)"
    using sin_pi_minus [of "3 * pi / 10"] sin_cos_eq [of "3 * pi / 10"] by (simp add: field_simps)
  moreover have "sin (6 * pi / 10) = cos (pi / 10)"
    using sin_pi_minus [of "4 * pi / 10"] sin_cos_eq [of "4 * pi / 10"] by (simp add: field_simps)
  ultimately show ?thesis
    using s1 s2 c1 c2 by linarith
qed

text \<open>
  The symbol of the byte \<^verbatim>\<open>0xFF\<close> is the sum of all nine tones. At the sample time
  \<open>1\<close> the sum exceeds \<open>6.25\<close>, so at the gain \<open>0.16\<close> the amplitude exceeds \<open>1\<close>
  and \<^verbatim>\<open>write_sample\<close> writes the full-scale sample in its place.
\<close>

lemma all_tones: "symbol_tones 0x1FF = [9, 8, 7, 6, 5, 4, 3, 2, 1]"
  by (simp add: symbol_tones_def symbol_bits_def tone_cycles_def BIT_COUNT_def upt_rec)

lemma tone_sample_one: "tone_sample k (Suc 0) = sin (real k * pi / 10)"
  by (simp add: tone_sample_def SAMPLE_COUNT_def SAMPLE_COUNT_MIN_def BIT_COUNT_def mult_ac)

lemma all_tones_clip:
  "1 < symbol_sample 0.16 (ucast (0xFF :: 8 word) OR SYNC_SIGNAL) 1"
  "write_sample (symbol_sample 0.16 (ucast (0xFF :: 8 word) OR SYNC_SIGNAL) 1)
     = Inr [0xFF, 0xFF, 0xFF, 0x7F]"
proof -
  have w: "ucast (0xFF :: 8 word) OR SYNC_SIGNAL = (0x1FF :: 32 word)"
    by (simp add: SYNC_SIGNAL_def)
  have "symbol_sample 0.16 0x1FF 1
          = (sin (9 * pi / 10) + sin (8 * pi / 10) + sin (7 * pi / 10) + sin (6 * pi / 10)
             + sin (5 * pi / 10) + sin (4 * pi / 10) + sin (3 * pi / 10) + sin (2 * pi / 10)
             + sin (pi / 10)) * 0.16"
    unfolding symbol_sample_def all_tones by (simp add: tone_sample_one)
  with tone_sum_bound show c: "1 < symbol_sample 0.16 (ucast (0xFF :: 8 word) OR SYNC_SIGNAL) 1"
    unfolding w by simp
  have "write_sample x = write_sample 1" if "1 < x" for x
    using that by (simp add: write_sample_def)
  from this [OF c] show "write_sample (symbol_sample 0.16 (ucast (0xFF :: 8 word) OR SYNC_SIGNAL) 1)
     = Inr [0xFF, 0xFF, 0xFF, 0x7F]"
    by (simp only: write_sample_one)
qed

section \<open>Properties of the decoder\<close>

subsection \<open>The end of the stream\<close>

lemma decoder_decode_eof:
  "state d = DECODER_EOF \<Longrightarrow> decoder_decode fp d x = (d, DECODER_RET_EOF)"
  by (simp add: decoder_decode_def)

lemma feed_eof: "state d = DECODER_EOF \<Longrightarrow> feed fp d xs = d"
  by (induction xs) (simp_all add: feed_def decoder_decode_eof)

text \<open>
  C8. Once the decoder is in the state \<^verbatim>\<open>DECODER_EOF\<close>, after any further samples
  \<open>xs\<close> the decoder is unchanged, and the next call returns \<^verbatim>\<open>DECODER_RET_EOF\<close> and
  leaves the decoder unchanged again, in every arithmetic.
\<close>

theorem eof_is_terminal:
  "state d = DECODER_EOF \<Longrightarrow>
     feed fp d xs = d \<and> decoder_decode fp (feed fp d xs) x = (d, DECODER_RET_EOF)"
  by (simp add: feed_eof decoder_decode_eof)

theorem eof_is_terminal_witness:
  "state (decoder_init\<lparr>state := DECODER_EOF\<rparr>) = DECODER_EOF
   \<and> feed exact (decoder_init\<lparr>state := DECODER_EOF\<rparr>) [0, 512, 1023]
       = decoder_init\<lparr>state := DECODER_EOF\<rparr>
   \<and> decoder_decode exact (feed exact (decoder_init\<lparr>state := DECODER_EOF\<rparr>) [0, 512, 1023]) 7
       = (decoder_init\<lparr>state := DECODER_EOF\<rparr>, DECODER_RET_EOF)"
proof -
  have h: "state (decoder_init\<lparr>state := DECODER_EOF\<rparr>) = DECODER_EOF"
    by simp
  from eof_is_terminal [OF h, of exact "[0, 512, 1023]" 7] h show ?thesis
    by blast
qed

subsection \<open>Thresholding\<close>

lemma bit_single: "bit (push_bit m 1 :: 32 word) n \<longleftrightarrow> n = m \<and> n < 32"
  by (auto simp add: bit_exp_iff)

lemma threshold_step_bit:
  "bit (threshold_step frequency f byte) n \<longleftrightarrow>
     bit byte n \<or> (n < 32 \<and> carrier_bit f = n \<and> frequency ! f > 1 / 4)"
proof (cases "frequency ! f > 1 / 4")
  case True
  then have "threshold_step frequency f byte = byte OR push_bit (carrier_bit f) 1"
    by (simp add: threshold_step_def)
  with True show ?thesis
    by (auto simp only: bit_or_iff bit_single)
next
  case False
  then have "threshold_step frequency f byte = byte"
    by (simp add: threshold_step_def)
  with False show ?thesis
    by (simp (no_asm_simp))
qed

lemma threshold_fold_bit:
  "bit (fold (threshold_step frequency) fs acc) n \<longleftrightarrow>
     bit acc n \<or> (n < 32 \<and> (\<exists>f \<in> set fs. carrier_bit f = n \<and> frequency ! f > 1 / 4))"
proof (induction fs arbitrary: acc)
  case Nil
  show ?case by simp
next
  case (Cons a fs)
  show ?case
    unfolding fold_simps Cons.IH threshold_step_bit by (simp (no_asm)) blast
qed

lemma threshold_bits_bit:
  "bit (threshold_bits frequency fs) n \<longleftrightarrow>
     n < 32 \<and> (\<exists>f \<in> set fs. carrier_bit f = n \<and> frequency ! f > 1 / 4)"
  unfolding threshold_bits_def threshold_fold_bit by simp

lemma carriers_9: "frequency_count fo = 9 \<Longrightarrow> carriers fo = [0..<9]"
  by (simp add: carriers_def)

lemma frequency_nth:
  "frequency_count fo = 9 \<Longrightarrow> f < 9 \<Longrightarrow> fourier_to_frequency fp fo ! f = carrier_power fp fo f"
  by (simp add: fourier_to_frequency_def carriers_9)

text \<open>Which bits of the demodulated value are set.\<close>

lemma demodulate_bit:
  assumes "frequency_count fo = 9"
  shows "bit (demodulate fp fo) n \<longleftrightarrow> (\<exists>f<9. n = 8 - f \<and> carrier_power fp fo f > 1 / 4)"
proof -
  have "bit (demodulate fp fo) n \<longleftrightarrow>
          n < 32 \<and> (\<exists>f \<in> set [0..<9]. carrier_bit f = n \<and> fourier_to_frequency fp fo ! f > 1 / 4)"
    unfolding demodulate_def threshold_bits_bit carriers_9 [OF assms(1)] ..
  also have "\<dots> \<longleftrightarrow> (\<exists>f<9. n = 8 - f \<and> fourier_to_frequency fp fo ! f > 1 / 4)"
    by (auto simp: carrier_bit_def BIT_COUNT_def)
  also have "\<dots> \<longleftrightarrow> (\<exists>f<9. n = 8 - f \<and> carrier_power fp fo f > 1 / 4)"
    using frequency_nth [OF assms] by auto
  finally show ?thesis .
qed

lemma demodulate_carrier_bit:
  assumes "frequency_count fo = 9" "f < 9"
  shows "bit (demodulate fp fo) (8 - f) \<longleftrightarrow> carrier_power fp fo f > 1 / 4"
proof -
  have "g = f" if "g < 9" "8 - f = 8 - g" for g
    using that assms(2) by simp
  then show ?thesis
    unfolding demodulate_bit [OF assms(1)] using assms(2) by blast
qed

lemma single_carrier:
  assumes fc: "frequency_count fo = 9" and f: "f < 9"
    and sc: "sincos_components fo = (replicate 9 (0, 0))[f := (s, c)]"
    and z: "to_float fp 0 = 0"
  shows "demodulate fp fo = (if carrier_power fp fo f > 1 / 4 then push_bit (8 - f) 1 else 0)"
proof (rule bit_eqI)
  fix n
  have pw: "carrier_power fp fo g = 0" if "g < 9" "g \<noteq> f" for g
    using that f by (simp add: carrier_power_def sc nth_list_update quad_def z)
  have "bit (demodulate fp fo) n \<longleftrightarrow> (\<exists>g<9. n = 8 - g \<and> carrier_power fp fo g > 1 / 4)"
    by (rule demodulate_bit [OF fc])
  also have "\<dots> \<longleftrightarrow> (n = 8 - f \<and> carrier_power fp fo f > 1 / 4)"
  proof
    assume "\<exists>g<9. n = 8 - g \<and> carrier_power fp fo g > 1 / 4"
    then obtain g where g: "g < 9" "n = 8 - g" "carrier_power fp fo g > 1 / 4"
      by blast
    from g(1,3) have "g = f"
      by (cases "g = f") (simp_all add: pw)
    with g show "n = 8 - f \<and> carrier_power fp fo f > 1 / 4"
      by simp
  next
    assume "n = 8 - f \<and> carrier_power fp fo f > 1 / 4"
    with f show "\<exists>g<9. n = 8 - g \<and> carrier_power fp fo g > 1 / 4"
      by auto
  qed
  also have "\<dots> \<longleftrightarrow>
      bit (if carrier_power fp fo f > 1 / 4 then push_bit (8 - f) 1 else (0 :: 32 word)) n"
  proof (cases "carrier_power fp fo f > 1 / 4")
    case True
    with f show ?thesis
      by (auto simp only: bit_single if_True)
  next
    case False
    then show ?thesis
      by simp
  qed
  finally show "bit (demodulate fp fo) n \<longleftrightarrow>
      bit (if carrier_power fp fo f > 1 / 4 then push_bit (8 - f) 1 else (0 :: 32 word)) n" .
qed

lemma carrier_power_at:
  assumes "f < 9" and "sincos_components fo = (replicate 9 (0, 0))[f := (s, c)]"
  shows "carrier_power fp fo f = to_float fp (to_float fp (s * s) + to_float fp (c * c))"
  using assms by (simp add: carrier_power_def quad_def)

text \<open>
  C3. With the nine carriers of the program, bit \<open>8 - f\<close> of the demodulated value is
  set if and only if the power of carrier \<open>f\<close> exceeds \<open>0.25\<close>, where the power is the
  sum of the squares of the two accumulators as the program computes it: each square
  and the sum rounded to \<^verbatim>\<open>float\<close>. When carrier \<open>f\<close> is the only one with a signal
  (the accumulators of the others are zero, and rounding leaves zero as it is), the
  value is the single bit \<open>8 - f\<close> if that power is above \<open>0.25\<close> and \<open>0\<close> if it is
  not.
\<close>

theorem demodulate_threshold:
  assumes "frequency_count fo = 9" and "f < 9"
  shows "(bit (demodulate fp fo) (8 - f) \<longleftrightarrow>
            0.25 < to_float fp
                     (to_float fp (fst (sincos_components fo ! f) * fst (sincos_components fo ! f))
                      + to_float fp (snd (sincos_components fo ! f) * snd (sincos_components fo ! f))))
         \<and> (to_float fp 0 = 0 \<longrightarrow>
            sincos_components fo = (replicate 9 (0, 0))[f := (s, c)] \<longrightarrow>
              (0.25 < to_float fp (to_float fp (s * s) + to_float fp (c * c)) \<longrightarrow>
                 demodulate fp fo = push_bit (8 - f) 1)
              \<and> (to_float fp (to_float fp (s * s) + to_float fp (c * c)) \<le> 0.25 \<longrightarrow>
                 demodulate fp fo = 0))"
proof -
  have "bit (demodulate fp fo) (8 - f) \<longleftrightarrow> 1 / 4 < carrier_power fp fo f"
    by (rule demodulate_carrier_bit [OF assms])
  then have first: "bit (demodulate fp fo) (8 - f) \<longleftrightarrow>
            0.25 < to_float fp
                     (to_float fp (fst (sincos_components fo ! f) * fst (sincos_components fo ! f))
                      + to_float fp (snd (sincos_components fo ! f) * snd (sincos_components fo ! f)))"
    by (simp add: carrier_power_def quad_def)
  have second: "(0.25 < to_float fp (to_float fp (s * s) + to_float fp (c * c)) \<longrightarrow>
                 demodulate fp fo = push_bit (8 - f) 1)
              \<and> (to_float fp (to_float fp (s * s) + to_float fp (c * c)) \<le> 0.25 \<longrightarrow>
                 demodulate fp fo = 0)"
    if z: "to_float fp 0 = 0" and sc: "sincos_components fo = (replicate 9 (0, 0))[f := (s, c)]"
    using single_carrier [OF assms sc z] carrier_power_at [OF assms(2) sc, of fp] by simp
  from first second show ?thesis
    by blast
qed

theorem demodulate_threshold_witness:
  "to_float exact 0 = 0
   \<and> 0.25 < to_float exact (to_float exact (65 / 128 * (65 / 128)) + to_float exact (0 * 0))
   \<and> demodulate exact \<lparr> i = 0, frequency_count = 9, sample_count = 19,
       sincos_components = [(0,0), (0,0), (0,0), (65 / 128,0), (0,0), (0,0), (0,0), (0,0), (0,0)] \<rparr>
     = 32
   \<and> to_float exact (to_float exact (63 / 128 * (63 / 128)) + to_float exact (0 * 0)) \<le> 0.25
   \<and> demodulate exact \<lparr> i = 0, frequency_count = 9, sample_count = 19,
       sincos_components = [(0,0), (0,0), (0,0), (63 / 128,0), (0,0), (0,0), (0,0), (0,0), (0,0)] \<rparr>
     = 0"
  using
    demodulate_threshold [of "\<lparr> i = 0, frequency_count = 9, sample_count = 19,
       sincos_components = [(0,0), (0,0), (0,0), (65 / 128,0), (0,0), (0,0), (0,0), (0,0), (0,0)] \<rparr>"
       3 exact "65 / 128" 0]
    demodulate_threshold [of "\<lparr> i = 0, frequency_count = 9, sample_count = 19,
       sincos_components = [(0,0), (0,0), (0,0), (63 / 128,0), (0,0), (0,0), (0,0), (0,0), (0,0)] \<rparr>"
       3 exact "63 / 128" 0]
  by (simp add: eval_nat_numeral)

text \<open>
  An example where rounding decides the bit: the accumulators \<open>(1/2, 2^-20)\<close> have the
  power \<open>1/4 + 2^-40\<close>, which is above the threshold, but in binary32 the sum rounds to
  \<open>1/4\<close>, which is not. The bit is set in the arithmetic without rounding and clear in
  every arithmetic that rounds \<^verbatim>\<open>float\<close> results as binary32 does.
\<close>

lemma rounding_decides_threshold:
  assumes "frequency_count fo = 9" and "sincos_components fo ! 3 = (1 / 2, 1 / 2 ^ 20)"
  shows "bit (demodulate exact fo) 5"
    and "to_float fp = binary32 \<Longrightarrow> \<not> bit (demodulate fp fo) 5"
proof -
  have "carrier_power exact fo 3 = 1 / 4 + 1 / 2 ^ 40"
    by (simp add: carrier_power_exact quad_exact assms(2))
  with demodulate_carrier_bit [OF assms(1), of 3 exact] show "bit (demodulate exact fo) 5"
    by simp
next
  assume r: "to_float fp = binary32"
  have a: "(1 / 2) * (1 / 2) = (1 / 4 :: real)"
    by simp
  have b: "(1 / 2 ^ 20) * (1 / 2 ^ 20) = (1 / 2 ^ 40 :: real)"
    by simp
  have "carrier_power fp fo 3 = 1 / 4"
    unfolding carrier_power_def quad_def assms(2) r fst_conv snd_conv a b
      binary32_quarter binary32_tiny binary32_above_quarter
    by (rule refl)
  with demodulate_carrier_bit [OF assms(1), of 3 fp] show "\<not> bit (demodulate fp fo) 5"
    by simp
qed

lemma demodulate_silence:
  assumes "frequency_count fo = 9" and "sincos_components fo = replicate 9 (0, 0)"
  shows "demodulate exact fo = 0"
proof -
  have "(replicate 9 (0 :: real, 0 :: real))[0 := (0, 0)] = replicate 9 (0, 0)"
    by (rule nth_equalityI) (simp_all add: nth_list_update)
  with assms(2) have sc: "sincos_components fo = (replicate 9 (0, 0))[0 := (0, 0)]"
    by simp
  have "carrier_power exact fo 0 = 0"
    by (simp add: carrier_power_exact quad_exact assms(2))
  with single_carrier [OF assms(1) _ sc, of exact] show ?thesis
    by simp
qed

subsection \<open>Adding a sample\<close>

lemma add_carrier_zero: "add_carrier exact fo 0 f sc = sc"
  by (simp add: add_carrier_exact)

lemma fold_add_carrier_zero: "fold (add_carrier exact fo 0) fs sc = sc"
  by (induction fs) (simp_all add: add_carrier_zero)

lemma fourier_add_sample_zero:
  "fourier_add_sample exact fo 0 = (fo\<lparr>i := i fo + 1\<rparr>, sint (sample_count fo) \<le> sint (i fo + 1))"
  by (simp add: fourier_add_sample_def fold_add_carrier_zero)

lemma pilot_mask: "(byte AND 0x100 \<noteq> 0) = bit (byte :: 32 word) 8"
proof -
  have "(0x100 :: 32 word) = push_bit 8 1"
    by simp
  then show ?thesis
    by (simp only: bit_iff_and_push_bit_not_eq_0)
qed

lemma decoder_decode_byte_complete:
  assumes "fourier_add_sample fp (fourier d) x = (fo, True)"
  shows "decoder_decode_byte fp d x =
           (d\<lparr>phase := (if bit (demodulate fp fo) 8 then pilot_phase fp fo else 0),
               fourier := fourier_reset fo\<rparr>,
            if demodulate fp fo = 0 then DECODER_RET_EOF else uint (demodulate fp fo AND 0xFF))"
  using assms unfolding decoder_decode_byte_def pilot_mask by (simp add: Let_def)

lemma decoder_decode_byte_incomplete:
  assumes "fourier_add_sample fp (fourier d) x = (fo, False)"
  shows "decoder_decode_byte fp d x = (d\<lparr>fourier := fo\<rparr>, DECODER_RET_NO_DATA)"
  using assms unfolding decoder_decode_byte_def by simp

lemma decoder_decode_byte_frame:
  "state (fst (decoder_decode_byte fp d x)) = state d"
  "signal_max (fst (decoder_decode_byte fp d x)) = signal_max d"
  "signal_min (fst (decoder_decode_byte fp d x)) = signal_min d"
  "polarity (fst (decoder_decode_byte fp d x)) = polarity d"
  "phase2 (fst (decoder_decode_byte fp d x)) = phase2 d"
  "phase3 (fst (decoder_decode_byte fp d x)) = phase3 d"
  "sample_count (fourier (fst (decoder_decode_byte fp d x))) = sample_count (fourier d)"
  by (simp_all add: decoder_decode_byte_def fourier_add_sample_def fourier_reset_def Let_def
        split: prod.splits)

lemma extra_step_frame:
  "state (extra_step fp d x) = state d"
  "signal_max (extra_step fp d x) = signal_max d"
  "signal_min (extra_step fp d x) = signal_min d"
  "phase2 (extra_step fp d x) = phase2 d"
  "phase3 (extra_step fp d x) = phase3 d"
  "sample_count (fourier (extra_step fp d x)) = sample_count (fourier d)"
  by (simp_all add: extra_step_def decoder_decode_byte_frame)

lemma drift_update_frame:
  "state (drift_update d) = state d"
  "signal_max (drift_update d) = signal_max d"
  "signal_min (drift_update d) = signal_min d"
  "phase (drift_update d) = phase d"
  by (simp_all add: drift_update_def)

subsection \<open>The phase of the pilot\<close>

lemma atan2_bounds: "- pi < atan2 y x \<and> atan2 y x \<le> pi"
proof -
  have lb: "- (pi / 2) < arctan (y / x)" and ub: "arctan (y / x) < pi / 2"
    by (rule arctan_lbound, rule arctan_ubound)
  have neg: "arctan (y / x) \<le> 0" if "x < 0" "0 \<le> y"
    using that by (simp add: divide_nonneg_neg arctan_le_zero_iff)
  have pos: "0 < arctan (y / x)" if "x < 0" "y < 0"
    using that by (simp add: divide_neg_neg zero_less_arctan_iff)
  show ?thesis
    unfolding atan2_def using lb ub neg pos pi_gt_zero
    by (auto split: if_splits simp: not_less)
qed

lemma sincos_to_phase_bounds:
  "- (1 / 2) < sincos_to_phase exact x y \<and> sincos_to_phase exact x y \<le> 1 / 2"
proof -
  have "sincos_to_phase exact x y = atan2 y x / pi / 2"
    by (simp add: sincos_to_phase_exact)
  moreover have "- 1 < atan2 y x / pi" "atan2 y x / pi \<le> 1"
    using atan2_bounds [of y x] pi_gt_zero by (simp_all add: field_simps)
  ultimately show ?thesis
    by simp
qed

lemma c_round_bound: "\<bar>x\<bar> \<le> real_of_int k \<Longrightarrow> \<bar>c_round x\<bar> \<le> k"
  unfolding c_round_def by (auto simp: abs_if split: if_splits) linarith+

lemma sint16_of_int:
  "- 32768 \<le> k \<Longrightarrow> k < 32768 \<Longrightarrow> sint (word_of_int k :: 16 word) = k"
  unfolding sint_sbintrunc' by (intro signed_take_bit_int_eq_self) simp_all

text \<open>
  In the arithmetic without rounding the fraction of the cycle lies in \<open>(-1/2, 1/2]\<close>,
  and the rounded offset fits the 16-bit field \<^verbatim>\<open>phase\<close>.
\<close>

lemma phase_fits:
  "sint (word_of_int (c_round (sincos_to_phase exact x y * real_of_int (sint (n :: 16 word)))) :: 16 word)
     = c_round (sincos_to_phase exact x y * real_of_int (sint n))"
proof -
  have "\<bar>sint n\<bar> \<le> 32768"
    using sint_range_size [of n] by (simp add: word_size abs_if)
  then have "real_of_int \<bar>sint n\<bar> \<le> real_of_int 32768"
    by (simp only: of_int_le_iff)
  then have n: "\<bar>real_of_int (sint n)\<bar> \<le> 32768"
    by (simp only: of_int_abs of_int_numeral)
  have p: "\<bar>sincos_to_phase exact x y\<bar> \<le> 1 / 2"
    using sincos_to_phase_bounds [of x y] by (simp add: abs_if)
  have "\<bar>sincos_to_phase exact x y * real_of_int (sint n)\<bar> \<le> 1 / 2 * 32768"
    unfolding abs_mult by (rule mult_mono [OF p n]) simp_all
  then have "\<bar>sincos_to_phase exact x y * real_of_int (sint n)\<bar> \<le> real_of_int 16384"
    by simp
  then have "\<bar>c_round (sincos_to_phase exact x y * real_of_int (sint n))\<bar> \<le> 16384"
    by (rule c_round_bound)
  then show ?thesis
    by (intro sint16_of_int) linarith+
qed

subsection \<open>Running the decoder on concrete samples\<close>

text \<open>
  The runs are computed in the arithmetic \<open>exact\<close>. Their levels are normalised to
  \<open>0\<close>, \<open>1\<close> and \<open>-1\<close>, and in the runs of this subsection the only sample of a window
  that is not \<open>0\<close> is its first, where the reference sine is \<open>0\<close> and the reference
  cosine is \<open>1\<close>.
\<close>

lemmas acquisition_defs = decoder_decode_def detect_polarity_def detect_wave_first_half_def
  detect_wave_second_half_def decoder_update_magnitude_def count_sample_def
  TIMING_SIGNAL_THRESHOLD_def SAMPLE_COUNT_MIN_def BIT_COUNT_def DECODER_RET_NO_DATA_def

lemma feed_Nil: "feed fp d [] = d"
  by (simp add: feed_def)

lemma feed_Cons: "feed fp d (x # xs) = feed fp (fst (decoder_decode fp d x)) xs"
  by (simp add: feed_def)

lemma feed_append: "feed fp d (xs @ ys) = feed fp (feed fp d xs) ys"
  by (simp add: feed_def)

lemma feed_acquisition: "feed exact decoder_init acquisition = locked"
  by (simp add: feed_def acquisition_def decoder_init_def locked_def acquisition_defs Let_def)

lemma feed_three: "feed exact decoder_init [1000, 1100, 999] =
  \<lparr> state = DECODER_DETECT_WAVE_SECOND_HALF, polarity = True, phase = 0, phase2 = 0, phase3 = 0,
       baseline = 1000, signal_max = 1100, signal_min = 999,
       fourier = \<lparr> i = 0, frequency_count = 9, sample_count = 2,
                   sincos_components = replicate 9 (0, 0) \<rparr> \<rparr>"
  by (simp add: feed_def decoder_init_def acquisition_defs Let_def)

text \<open>A sample that is normalised to 0 and does not complete the window only advances i\<close>

lemma quiet_step:
  assumes "tracking d" and "\<not> sint (phase d) < 0" and "normalized_sample exact d x = 0"
    and "\<not> sint (sample_count (fourier d)) \<le> sint (i (fourier d) + 1)"
  shows "decoder_decode exact d x
           = (d\<lparr>fourier := (fourier d)\<lparr>i := i (fourier d) + 1\<rparr>\<rparr>, DECODER_RET_NO_DATA)"
proof -
  have "fourier_add_sample exact (fourier d) 0 = ((fourier d)\<lparr>i := i (fourier d) + 1\<rparr>, False)"
    using assms(4) by (simp add: fourier_add_sample_zero)
  then have "decoder_decode_byte exact d 0
               = (d\<lparr>fourier := (fourier d)\<lparr>i := i (fourier d) + 1\<rparr>\<rparr>, DECODER_RET_NO_DATA)"
    by (rule decoder_decode_byte_incomplete)
  with assms(1,2,3) show ?thesis
    by (auto simp add: tracking_def decoder_decode_def detect_calibrate_def decode_data_def
          DECODER_RET_NO_DATA_def DECODER_RET_EOF_def)
qed

lemma sint_succ: "sint (w :: 16 word) < 32767 \<Longrightarrow> sint (w + 1) = sint w + 1"
  using sint_range_size [of w]
  by (simp add: sint_word_ariths word_size signed_take_bit_int_eq_self)

lemma quiet_feed:
  assumes "tracking d" and "\<not> sint (phase d) < 0" and "normalized_sample exact d x = 0"
    and "sint (i (fourier d)) + int k < sint (sample_count (fourier d))"
  shows "feed exact d (replicate k x) = d\<lparr>fourier := (fourier d)\<lparr>i := i (fourier d) + of_nat k\<rparr>\<rparr>"
  using assms
proof (induction k arbitrary: d)
  case 0
  show ?case by (simp add: feed_Nil)
next
  case (Suc k)
  let ?d1 = "d\<lparr>fourier := (fourier d)\<lparr>i := i (fourier d) + 1\<rparr>\<rparr>"
  have lt: "sint (i (fourier d)) < 32767"
    using Suc.prems(4) sint_range_size [of "sample_count (fourier d)"] by (simp add: word_size)
  have s1: "sint (i (fourier d) + 1) = sint (i (fourier d)) + 1"
    by (rule sint_succ [OF lt])
  have step: "decoder_decode exact d x = (?d1, DECODER_RET_NO_DATA)"
    using Suc.prems s1 by (intro quiet_step) simp_all
  have "feed exact ?d1 (replicate k x)
          = ?d1\<lparr>fourier := (fourier ?d1)\<lparr>i := i (fourier ?d1) + of_nat k\<rparr>\<rparr>"
    using Suc.prems s1 by (intro Suc.IH) (simp_all add: normalized_sample_exact tracking_def)
  then show ?case
    by (simp add: feed_Cons step add.assoc)
qed

text \<open>A sample at the start of the window: the reference sine is 0 and the cosine is 1\<close>

lemma nsin_0: "nsin exact 0 = 0"
  by (simp add: nsin_exact)

lemma ncos_0: "ncos exact 0 = 1"
proof -
  have "(0.25 :: real) * 2 * pi = pi / 2" by simp
  then show ?thesis by (simp add: ncos_exact nsin_exact)
qed

lemma add_carrier_start:
  "i fo = 0 \<Longrightarrow> add_carrier exact fo s f sc
     = sc[f := (fst (sc ! f), snd (sc ! f) + s * 25 / real_of_int (sint (sample_count fo)))]"
  by (simp add: add_carrier_exact nsin_0 ncos_0)

lemma list9: "replicate 9 x = [x, x, x, x, x, x, x, x, x]"
  by (simp add: eval_nat_numeral)

lemma upt9: "[0..<9] = [0, 1, 2, 3, 4, 5, 6, 7, 8]"
  by (simp add: upt_rec)

lemma fourier_add_sample_start:
  assumes "i fo = 0" "frequency_count fo = 9" "sincos_components fo = replicate 9 (0, 0)"
  shows "fourier_add_sample exact fo s
           = (fo\<lparr>sincos_components := replicate 9 (0, s * 25 / real_of_int (sint (sample_count fo))),
                 i := 1\<rparr>,
              sint (sample_count fo) \<le> 1)"
  using assms
  by (simp add: fourier_add_sample_def carriers_9 upt9 add_carrier_start list9)

lemma spike_step:
  assumes "tracking d" and "\<not> sint (phase d) < 0" and "i (fourier d) = 0"
    and "frequency_count (fourier d) = 9"
    and "sincos_components (fourier d) = replicate 9 (0, 0)"
    and "1 < sint (sample_count (fourier d))"
  shows "decoder_decode exact d x
           = (d\<lparr>fourier := (fourier d)\<lparr>sincos_components :=
                    replicate 9 (0, normalized_sample exact d x * 25
                                     / real_of_int (sint (sample_count (fourier d)))),
                  i := 1\<rparr>\<rparr>,
              DECODER_RET_NO_DATA)"
proof -
  let ?fo = "(fourier d)\<lparr>sincos_components :=
                    replicate 9 (0, normalized_sample exact d x * 25
                                     / real_of_int (sint (sample_count (fourier d)))),
                  i := 1\<rparr>"
  have "fourier_add_sample exact (fourier d) (normalized_sample exact d x) = (?fo, False)"
    using assms(6) by (simp add: fourier_add_sample_start [OF assms(3,4,5)])
  then have "decoder_decode_byte exact d (normalized_sample exact d x) = (d\<lparr>fourier := ?fo\<rparr>, DECODER_RET_NO_DATA)"
    by (rule decoder_decode_byte_incomplete)
  with assms(1,2) show ?thesis
    by (auto simp add: tracking_def decoder_decode_def detect_calibrate_def decode_data_def
          DECODER_RET_NO_DATA_def DECODER_RET_EOF_def)
qed

lemma demodulate_all:
  assumes "frequency_count fo = 9" and "sincos_components fo = replicate 9 (0, c)"
    and "1 / 4 < c * c"
  shows "demodulate exact fo = 0x1FF"
proof (rule bit_eqI)
  fix n
  have pw: "carrier_power exact fo g = c * c" if "g < 9" for g
    using that by (simp add: carrier_power_exact assms(2) quad_exact)
  have "bit (demodulate exact fo) n \<longleftrightarrow> (\<exists>g<9. n = 8 - g \<and> carrier_power exact fo g > 1 / 4)"
    by (rule demodulate_bit [OF assms(1)])
  also have "\<dots> \<longleftrightarrow> n < 9"
  proof
    assume "\<exists>g<9. n = 8 - g \<and> carrier_power exact fo g > 1 / 4"
    then show "n < 9" by auto
  next
    assume "n < 9"
    then have "8 - n < 9 \<and> n = 8 - (8 - n) \<and> carrier_power exact fo (8 - n) > 1 / 4"
      using assms(3) by (simp add: pw)
    then show "\<exists>g<9. n = 8 - g \<and> carrier_power exact fo g > 1 / 4"
      by blast
  qed
  also have "\<dots> \<longleftrightarrow> bit (mask 9 :: 32 word) n"
    by (auto simp add: bit_mask_iff)
  also have "(mask 9 :: 32 word) = 0x1FF"
    by (simp add: mask_eq_exp_minus_1)
  finally show "bit (demodulate exact fo) n \<longleftrightarrow> bit (0x1FF :: 32 word) n" .
qed

lemma fourier_reset_9:
  assumes "frequency_count fo = 9" and "sincos_components fo = replicate 9 (0, c)"
  shows "fourier_reset fo = fo\<lparr>sincos_components := replicate 9 (0, 0), i := 0\<rparr>"
  using assms by (simp add: fourier_reset_def carriers_9 upt9 list9)

lemma phase_up: "0 < c \<Longrightarrow> c_round (sincos_to_phase exact 0 c * 19) = 5"
  by (simp add: sincos_to_phase_exact atan2_def c_round_def)

lemma phase_down: "c < 0 \<Longrightarrow> c_round (sincos_to_phase exact 0 c * 19) = - 5"
  by (simp add: sincos_to_phase_exact atan2_def c_round_def)

lemma bit8_all: "bit (0x1FF :: 32 word) 8"
  by (simp add: bit_iff_odd_drop_bit drop_bit_eq_div)

text \<open>The end of a window that holds one sample at its start, in a window of 19 samples\<close>

lemma spike_window_end:
  assumes "frequency_count (fourier d) = 9"
    and "sincos_components (fourier d) = replicate 9 (0, c)" and "1 / 4 < c * c"
    and "sample_count (fourier d) = 19" and "i (fourier d) = 18"
  shows "decoder_decode_byte exact d 0
           = (d\<lparr>phase := (if 0 < c then 5 else - 5),
                 fourier := (fourier d)\<lparr>sincos_components := replicate 9 (0, 0), i := 0\<rparr>\<rparr>, 255)"
proof -
  let ?fo = "(fourier d)\<lparr>i := 19\<rparr>"
  have c0: "c \<noteq> 0" using assms(3) by auto
  have add: "fourier_add_sample exact (fourier d) 0 = (?fo, True)"
    by (simp add: fourier_add_sample_zero assms(4,5))
  have dem: "demodulate exact ?fo = 0x1FF"
    by (rule demodulate_all [where c = c, OF _ _ assms(3)]) (simp_all add: assms(1,2))
  have ph: "pilot_phase exact ?fo = (if 0 < c then 5 else - 5)"
    using c0 by (simp add: pilot_phase_exact assms(2,4) list9 phase_up phase_down)
  have rs: "fourier_reset ?fo = (fourier d)\<lparr>sincos_components := replicate 9 (0, 0), i := 0\<rparr>"
    by (subst fourier_reset_9 [where c = c]) (simp_all add: assms)
  show ?thesis
    unfolding decoder_decode_byte_complete [OF add] dem ph rs
    by (simp add: bit8_all DECODER_RET_EOF_def)
qed

lemma skip_feed:
  assumes "tracking d" and "sint (phase d) = - int k"
  shows "feed exact d (replicate k x) = d\<lparr>phase := phase d + of_nat k\<rparr>"
  using assms
proof (induction k arbitrary: d)
  case 0
  show ?case by (simp add: feed_Nil)
next
  case (Suc k)
  let ?d1 = "d\<lparr>phase := phase d + 1\<rparr>"
  have step: "decoder_decode exact d x = (?d1, DECODER_RET_NO_DATA)"
    using Suc.prems by (auto simp add: tracking_def decoder_decode_def detect_calibrate_def decode_data_def)
  have "sint (phase d + 1) = sint (phase d) + 1"
    using Suc.prems(2) by (intro sint_succ) simp
  then have "feed exact ?d1 (replicate k x) = ?d1\<lparr>phase := phase ?d1 + of_nat k\<rparr>"
    using Suc.prems by (intro Suc.IH) (simp_all add: tracking_def)
  then show ?case
    by (simp add: feed_Cons step add.assoc)
qed

lemma spike_window:
  assumes "tracking d" and "\<not> sint (phase d) < 0" and "i (fourier d) = 0"
    and "frequency_count (fourier d) = 9"
    and "sincos_components (fourier d) = replicate 9 (0, 0)"
    and "sample_count (fourier d) = 19"
    and "normalized_sample exact d q = 0"
  shows "feed exact d (x # replicate 17 q) = in_window d 18 (normalized_sample exact d x * 25 / 19)"
proof -
  let ?d1 = "in_window d 1 (normalized_sample exact d x * 25 / 19)"
  have "decoder_decode exact d x = (?d1, DECODER_RET_NO_DATA)"
    by (subst spike_step) (simp_all add: assms in_window_def)
  moreover have "feed exact ?d1 (replicate 17 q) = ?d1\<lparr>fourier := (fourier ?d1)\<lparr>i := i (fourier ?d1) + of_nat 17\<rparr>\<rparr>"
    using assms by (intro quiet_feed) (simp_all add: in_window_def tracking_def normalized_sample_exact)
  ultimately show ?thesis
    by (simp add: feed_Cons in_window_def)
qed

lemma tuned_window:
  assumes "\<not> sint p < 0"
  shows "feed exact (tuned p p2 p3) (1100 # replicate 17 999) = in_window (tuned p p2 p3) 18 (25 / 19)"
    and "feed exact (tuned p p2 p3) (898 # replicate 17 999) = in_window (tuned p p2 p3) 18 (- (25 / 19))"
proof -
  have n: "normalized_sample exact (tuned p p2 p3) 999 = 0" "normalized_sample exact (tuned p p2 p3) 1100 = 1"
    "normalized_sample exact (tuned p p2 p3) 898 = - 1"
    by (simp_all add: tuned_def normalized_sample_exact locked_def)
  have t: "tracking (tuned p p2 p3)" "i (fourier (tuned p p2 p3)) = 0"
    "frequency_count (fourier (tuned p p2 p3)) = 9"
    "sincos_components (fourier (tuned p p2 p3)) = replicate 9 (0, 0)"
    "sample_count (fourier (tuned p p2 p3)) = 19" "\<not> sint (phase (tuned p p2 p3)) < 0"
    using assms by (simp_all add: tuned_def locked_def tracking_def BIT_COUNT_def)
  show "feed exact (tuned p p2 p3) (1100 # replicate 17 999) = in_window (tuned p p2 p3) 18 (25 / 19)"
    using spike_window [OF t(1) t(6) t(2) t(3) t(4) t(5) n(1), of 1100] by (simp add: n)
  show "feed exact (tuned p p2 p3) (898 # replicate 17 999) = in_window (tuned p p2 p3) 18 (- (25 / 19))"
    using spike_window [OF t(1) t(6) t(2) t(3) t(4) t(5) n(1), of 898] by (simp add: n)
qed

lemma tuned_quiet_window:
  assumes "\<not> sint p < 0"
  shows "feed exact (in_window (tuned p p2 p3) 1 0) (replicate 17 999) = in_window (tuned p p2 p3) 18 0"
proof -
  let ?d = "in_window (tuned p p2 p3) 1 0"
  have "feed exact ?d (replicate 17 999) = ?d\<lparr>fourier := (fourier ?d)\<lparr>i := i (fourier ?d) + of_nat 17\<rparr>\<rparr>"
    using assms by (intro quiet_feed)
      (simp_all add: in_window_def tuned_def locked_def tracking_def normalized_sample_exact)
  then show ?thesis by (simp add: in_window_def)
qed

lemma tuned_end_byte:
  assumes "1 / 4 < c * c"
  shows "decoder_decode_byte exact (in_window (tuned p p2 p3) 18 c) 0
           = (in_window (tuned (if 0 < c then 5 else - 5) p2 p3) 0 0, 255)"
  by (subst spike_window_end [where c = c, OF _ _ assms])
    (simp_all add: in_window_def tuned_def locked_def)

lemma tuned_end_silent:
  "decoder_decode_byte exact (in_window (tuned p p2 p3) 18 0) 0
           = (in_window (tuned 0 p2 p3) 0 0, DECODER_RET_EOF)"
proof -
  let ?d = "in_window (tuned p p2 p3) 18 0"
  let ?fo = "(fourier ?d)\<lparr>i := 19\<rparr>"
  have add: "fourier_add_sample exact (fourier ?d) 0 = (?fo, True)"
    by (simp add: fourier_add_sample_zero in_window_def tuned_def locked_def)
  have dem: "demodulate exact ?fo = 0"
    by (rule demodulate_silence) (simp_all add: in_window_def tuned_def locked_def)
  have rs: "fourier_reset ?fo = (fourier ?d)\<lparr>sincos_components := replicate 9 (0, 0), i := 0\<rparr>"
    by (subst fourier_reset_9 [where c = 0]) (simp_all add: in_window_def tuned_def locked_def)
  show ?thesis
    unfolding decoder_decode_byte_complete [OF add] dem rs
    by (simp add: in_window_def tuned_def locked_def)
qed

lemma tuned_first_byte:
  "decoder_decode_byte exact (in_window (tuned p p2 p3) 0 0) 0
           = (in_window (tuned p p2 p3) 1 0, DECODER_RET_NO_DATA)"
  by (subst decoder_decode_byte_incomplete [where fo = "(fourier (in_window (tuned p p2 p3) 0 0))\<lparr>i := 1\<rparr>"])
     (simp_all add: fourier_add_sample_zero in_window_def tuned_def locked_def)

lemma tuned_simps:
  "state (in_window (tuned p p2 p3) k c) = DECODER_DETECT_CALIBRATE"
  "phase (in_window (tuned p p2 p3) k c) = p"
  "phase2 (in_window (tuned p p2 p3) k c) = p2"
  "phase3 (in_window (tuned p p2 p3) k c) = p3"
  "normalized_sample exact (in_window (tuned p p2 p3) k c) 999 = 0"
  "sample_count (fourier (in_window (tuned p p2 p3) k c)) = 19"
  by (simp_all add: in_window_def tuned_def locked_def normalized_sample_exact)

lemma end_up:
  "decoder_decode exact (in_window (tuned 0 0 0) 18 (25 / 19)) 999
     = (in_window (tuned 5 5 0) 1 0, DECODER_RET_NO_DATA)"
proof -
  have b: "decoder_decode_byte exact (in_window (tuned 0 0 0) 18 (25 / 19)) 0 = (in_window (tuned 5 0 0) 0 0, 255)"
    using tuned_end_byte [of "25 / 19" 0 0 0] by simp
  have u: "drift_update (in_window (tuned 5 0 0) 0 0) = in_window (tuned 5 5 0) 0 0"
    by (simp add: drift_update_def in_window_def tuned_def locked_def)
  show ?thesis
    by (simp add: decoder_decode_def detect_calibrate_def tuned_simps b u extra_step_def tuned_first_byte
        DECODER_RET_EOF_def)
qed

lemma end_silent:
  "decoder_decode exact (in_window (tuned 5 5 0) 18 0) 999
     = ((in_window (tuned 0 5 0) 0 0)\<lparr>state := DECODER_INIT\<rparr>, DECODER_RET_NO_DATA)"
  by (simp add: decoder_decode_def detect_calibrate_def tuned_simps tuned_end_silent)

lemma feed_locked: "feed exact decoder_init acquisition = tuned 0 0 0"
  by (simp add: feed_acquisition tuned_def locked_def)

lemma feed_pilot: "feed exact decoder_init trace_pilot = in_window (tuned 0 0 0) 18 (25 / 19)"
  unfolding trace_pilot_def feed_append feed_locked spike_up_def
  by (rule tuned_window(1)) simp

lemma feed_silent: "feed exact decoder_init trace_silent = in_window (tuned 5 5 0) 18 0"
proof -
  have "feed exact decoder_init trace_silent
          = feed exact (fst (decoder_decode exact (in_window (tuned 0 0 0) 18 (25 / 19)) 999)) (replicate 17 999)"
    unfolding trace_silent_def feed_append feed_pilot [unfolded trace_pilot_def feed_append]
    by (simp only: closing_def feed_Cons)
  also have "\<dots> = feed exact (in_window (tuned 5 5 0) 1 0) (replicate 17 999)"
    by (simp only: end_up fst_conv)
  also have "\<dots> = in_window (tuned 5 5 0) 18 0"
    by (rule tuned_quiet_window) simp
  finally show ?thesis .
qed

lemma end_down:
  assumes "p2 = 0 \<or> p3 = 0"
  shows "decoder_decode exact (in_window (tuned 0 p2 p3) 18 (- (25 / 19))) 999
     = (in_window (tuned (- 5) (- 5) p2) 0 0, DECODER_RET_NO_DATA)"
proof -
  have b: "decoder_decode_byte exact (in_window (tuned 0 p2 p3) 18 (- (25 / 19))) 0
             = (in_window (tuned (- 5) p2 p3) 0 0, 255)"
    using tuned_end_byte [of "- (25 / 19)" 0 p2 p3] by simp
  have u: "drift_update (in_window (tuned (- 5) p2 p3) 0 0) = in_window (tuned (- 5) (- 5) p2) 0 0"
    using assms by (auto simp add: drift_update_def in_window_def tuned_def locked_def)
  show ?thesis
    by (simp add: decoder_decode_def detect_calibrate_def tuned_simps b u extra_step_def
        DECODER_RET_EOF_def)
qed

lemma end_down_drift:
  "decoder_decode exact (in_window (tuned 0 (- 5) (- 5)) 18 (- (25 / 19))) 999
     = (retuned, DECODER_RET_NO_DATA)"
proof -
  have b: "decoder_decode_byte exact (in_window (tuned 0 (- 5) (- 5)) 18 (- (25 / 19))) 0
             = (in_window (tuned (- 5) (- 5) (- 5)) 0 0, 255)"
    using tuned_end_byte [of "- (25 / 19)" 0 "- 5" "- 5"] by simp
  have u: "drift_update (in_window (tuned (- 5) (- 5) (- 5)) 0 0) = retuned"
    by (simp add: drift_update_def in_window_def tuned_def locked_def retuned_def)
  have p: "\<not> 0 < sint (phase retuned)"
    by (simp add: retuned_def tuned_simps)
  show ?thesis
    by (simp add: decoder_decode_def detect_calibrate_def tuned_simps b u extra_step_def p
        DECODER_RET_EOF_def)
qed

lemma skip_five:
  "feed exact (in_window (tuned (- 5) p2 p3) 0 0) (replicate 5 999) = tuned 0 p2 p3"
proof -
  let ?d = "in_window (tuned (- 5) p2 p3) 0 0"
  have "feed exact ?d (replicate 5 999) = ?d\<lparr>phase := phase ?d + of_nat 5\<rparr>"
    by (rule skip_feed) (simp_all add: tracking_def tuned_simps)
  then show ?thesis
    by (simp add: in_window_def tuned_def locked_def)
qed

lemma down_round:
  assumes "p2 = 0 \<or> p3 = 0"
  shows "feed exact (feed exact (tuned 0 p2 p3) spike_down) gap = tuned 0 (- 5) p2"
proof -
  have "feed exact (tuned 0 p2 p3) spike_down = in_window (tuned 0 p2 p3) 18 (- (25 / 19))"
    unfolding spike_down_def by (rule tuned_window(2)) simp
  then have "feed exact (feed exact (tuned 0 p2 p3) spike_down) gap
          = feed exact (fst (decoder_decode exact (in_window (tuned 0 p2 p3) 18 (- (25 / 19))) 999)) (replicate 5 999)"
    by (simp only: gap_def feed_Cons)
  also have "\<dots> = feed exact (in_window (tuned (- 5) (- 5) p2) 0 0) (replicate 5 999)"
    by (simp only: end_down [OF assms] fst_conv)
  also have "\<dots> = tuned 0 (- 5) p2"
    by (rule skip_five)
  finally show ?thesis .
qed

lemma feed_drift: "feed exact decoder_init trace_drift = in_window (tuned 0 (- 5) (- 5)) 18 (- (25 / 19))"
proof -
  have "feed exact decoder_init trace_drift
          = feed exact (feed exact (feed exact (feed exact (feed exact (tuned 0 0 0) spike_down) gap) spike_down) gap) spike_down"
    unfolding trace_drift_def by (simp only: feed_append feed_locked)
  also have "\<dots> = feed exact (tuned 0 (- 5) (- 5)) spike_down"
    by (simp add: down_round)
  also have "\<dots> = in_window (tuned 0 (- 5) (- 5)) 18 (- (25 / 19))"
    unfolding spike_down_def by (rule tuned_window(2)) simp
  finally show ?thesis .
qed

subsection \<open>The phase offset\<close>

text \<open>
  C4. When a sample completes the window, the phase stored by \<^verbatim>\<open>decoder_decode_byte\<close>
  is zero if bit 8 (the pilot bit) of the demodulated value is clear. If it is set, the
  stored phase is the offset computed from the accumulators of carrier 0 as the program
  computes it: the angle \<^verbatim>\<open>atan2f(cosine, sine)\<close>, divided by \<^verbatim>\<open>2*M_PI\<close> in \<^verbatim>\<open>double\<close>
  and rounded to \<^verbatim>\<open>float\<close>, multiplied by the window length in \<^verbatim>\<open>float\<close>, and rounded
  to an integer by \<^verbatim>\<open>roundf\<close>, halfway cases away from zero. Read as a signed number,
  the stored phase is that offset whenever the offset fits \<^verbatim>\<open>int16_t\<close>, which is when
  the conversion has a value in C.
\<close>

theorem pilot_phase_measurement:
  fixes fp :: arithmetic and fo :: fourier
  defines "offset \<equiv>
    c_round (to_float fp
      (to_float fp (to_double fp
         (atan2_float fp (snd (sincos_components fo ! 0)) (fst (sincos_components fo ! 0))
          / to_double fp (2 * M_PI fp)))
       * real_of_int (sint (sample_count fo))))"
  assumes "fourier_add_sample fp (fourier d) x = (fo, True)"
  shows "phase (fst (decoder_decode_byte fp d x))
           = (if bit (demodulate fp fo) 8 then word_of_int offset else 0)
         \<and> (bit (demodulate fp fo) 8 \<longrightarrow> - 32768 \<le> offset \<longrightarrow> offset \<le> 32767 \<longrightarrow>
              sint (phase (fst (decoder_decode_byte fp d x))) = offset)
         \<and> (\<not> bit (demodulate fp fo) 8 \<longrightarrow> sint (phase (fst (decoder_decode_byte fp d x))) = 0)"
proof -
  have p: "pilot_phase fp fo = word_of_int offset"
    unfolding pilot_phase_def sincos_to_phase_def offset_def ..
  have s: "phase (fst (decoder_decode_byte fp d x))
             = (if bit (demodulate fp fo) 8 then word_of_int offset else 0)"
    by (simp add: decoder_decode_byte_complete [OF assms(2)] p)
  have "sint (word_of_int offset :: 16 word) = offset"
    if "- 32768 \<le> offset" "offset \<le> 32767"
    using that by (intro sint16_of_int) simp_all
  with s show ?thesis
    by simp
qed

theorem pilot_phase_measurement_witness:
  "fourier_add_sample exact (fourier (feed exact decoder_init trace_pilot)) 0
     = ((fourier (feed exact decoder_init trace_pilot))\<lparr>i := 19\<rparr>, True)
   \<and> bit (demodulate exact ((fourier (feed exact decoder_init trace_pilot))\<lparr>i := 19\<rparr>)) 8
   \<and> sint (phase (fst (decoder_decode_byte exact (feed exact decoder_init trace_pilot) 0))) = 5
   \<and> fourier_add_sample exact (fourier (feed exact decoder_init trace_silent)) 0
     = ((fourier (feed exact decoder_init trace_silent))\<lparr>i := 19\<rparr>, True)
   \<and> \<not> bit (demodulate exact ((fourier (feed exact decoder_init trace_silent))\<lparr>i := 19\<rparr>)) 8
   \<and> sint (phase (fst (decoder_decode_byte exact (feed exact decoder_init trace_silent) 0))) = 0"
proof -
  let ?d = "feed exact decoder_init trace_pilot" and ?e = "feed exact decoder_init trace_silent"
  have h: "fourier_add_sample exact (fourier ?d) 0 = ((fourier ?d)\<lparr>i := 19\<rparr>, True)"
    unfolding feed_pilot by (simp add: fourier_add_sample_zero in_window_def tuned_def locked_def)
  have k: "fourier_add_sample exact (fourier ?e) 0 = ((fourier ?e)\<lparr>i := 19\<rparr>, True)"
    unfolding feed_silent by (simp add: fourier_add_sample_zero in_window_def tuned_def locked_def)
  have "demodulate exact ((fourier ?d)\<lparr>i := 19\<rparr>) = 0x1FF"
    unfolding feed_pilot
    by (rule demodulate_all [where c = "25 / 19"]) (simp_all add: in_window_def tuned_def locked_def)
  then have b: "bit (demodulate exact ((fourier ?d)\<lparr>i := 19\<rparr>)) 8"
    by (simp only: bit8_all)
  have "demodulate exact ((fourier ?e)\<lparr>i := 19\<rparr>) = 0"
    unfolding feed_silent
    by (rule demodulate_silence) (simp_all add: in_window_def tuned_def locked_def)
  then have c: "\<not> bit (demodulate exact ((fourier ?e)\<lparr>i := 19\<rparr>)) 8"
    by simp
  have "phase (fst (decoder_decode_byte exact ?d 0)) = 5"
    unfolding feed_pilot using tuned_end_byte [of "25 / 19" 0 0 0] by (simp add: tuned_simps)
  then have v: "sint (phase (fst (decoder_decode_byte exact ?d 0))) = 5"
    by simp
  from pilot_phase_measurement [OF h] pilot_phase_measurement [OF k] h k b c v show ?thesis
    by simp
qed

text \<open>
  An example where rounding decides the offset: the pilot accumulators
  \<open>(-1, -2^-30)\<close> and a window of 19 samples. When the results are rounded as IEEE 754
  does, \<^verbatim>\<open>M_PI\<close> is the \<^verbatim>\<open>double\<close> nearest to \<open>\<pi>\<close> and \<^verbatim>\<open>atan2f\<close> returns the
  \<^verbatim>\<open>float\<close> nearest to \<open>-\<pi>\<close>, the fraction of the cycle is \<open>-1/2\<close>, the product
  \<open>-9.5\<close>, and the offset \<open>-10\<close>.
\<close>

lemma rounding_decides_phase:
  assumes "to_float fp = binary32" and "to_double fp = binary64"
    and "M_PI fp = 884279719003555 / 2 ^ 48"
    and "atan2_float fp (- (1 / 2 ^ 30)) (- 1) = - (13176795 / 2 ^ 22)"
  shows "c_round (to_float fp
           (to_float fp (to_double fp
              (atan2_float fp (- (1 / 2 ^ 30)) (- 1) / to_double fp (2 * M_PI fp)))
            * real_of_int 19)) = - 10"
proof -
  have "binary64 (2 * (884279719003555 / 2 ^ 48)) = 2 * (884279719003555 / 2 ^ 48)"
    unfolding binary64_def
    using round_in_binade [of 2 "2 * (884279719003555 / 2 ^ 48)" 53]
    by (simp add: round_to_even_def powr_neg_numeral)
  then have "to_float fp (to_double fp
               (atan2_float fp (- (1 / 2 ^ 30)) (- 1) / to_double fp (2 * M_PI fp))) = - (1 / 2)"
    unfolding assms by (simp only: binary64_fraction binary32_fraction)
  then have "to_float fp (to_float fp (to_double fp
               (atan2_float fp (- (1 / 2 ^ 30)) (- 1) / to_double fp (2 * M_PI fp)))
             * real_of_int 19) = - (19 / 2)"
    unfolding assms(1) by (simp add: binary32_offset)
  then show ?thesis
    by (simp add: c_round_def)
qed

text \<open>
  In the arithmetic without rounding the fraction of the cycle of these accumulators is
  above \<open>-1/2\<close>, and the offset is \<open>-9\<close>.
\<close>

lemma exact_phase_example:
  "c_round (to_float exact
     (to_float exact (to_double exact
        (atan2_float exact (- (1 / 2 ^ 30)) (- 1) / to_double exact (2 * M_PI exact)))
      * real_of_int 19)) = - 9"
proof -
  let ?a = "arctan (1 / 2 ^ 30)"
  have pos: "0 < ?a"
    by (simp add: zero_less_arctan_iff)
  have s: "1 / 10 \<le> sin (1 / 8 :: real)"
    using sin_lower [of "1 / 8" "1 / 8" "1 / 8"] by (simp add: power_divide eval_nat_numeral)
  have "0 < cos (1 / 8 :: real)"
    using pi_ge_two by (intro cos_gt_zero) simp_all
  then have c: "0 < cos (1 / 8 :: real)" "cos (1 / 8 :: real) \<le> 1"
    by simp_all
  have "sin (1 / 8 :: real) * cos (1 / 8) \<le> sin (1 / 8) * 1"
    using s c by (intro mult_left_mono) simp_all
  then have "sin (1 / 8 :: real) \<le> tan (1 / 8)"
    unfolding tan_def using c(1) by (simp add: pos_le_divide_eq)
  with s have "1 / 2 ^ 30 < tan (1 / 8 :: real)"
    by simp
  then have "?a < arctan (tan (1 / 8))"
    by (simp only: arctan_less_iff)
  moreover have "arctan (tan (1 / 8 :: real)) = 1 / 8"
    using pi_ge_two by (intro arctan_tan) simp_all
  ultimately have small: "?a < 1 / 8"
    by simp
  have at: "atan2 (- (1 / 2 ^ 30)) (- 1) = ?a - pi"
    by (simp add: atan2_def)
  let ?e = "19 * ?a / (2 * pi)"
  have e0: "0 < ?e"
    using pos pi_gt_zero by simp
  have "19 * ?a < 2 * pi"
    using small pi_ge_two by linarith
  then have e1: "?e < 1"
    using pi_gt_zero by (simp add: pos_divide_less_eq)
  have v: "to_float exact
     (to_float exact (to_double exact
        (atan2_float exact (- (1 / 2 ^ 30)) (- 1) / to_double exact (2 * M_PI exact)))
      * real_of_int 19) = ?e - 19 / 2"
    unfolding exact_simps at using pi_gt_zero by (simp add: field_simps)
  have "\<lfloor>- (?e - 19 / 2) + 1 / 2\<rfloor> = 9"
    using e0 e1 by (intro floor_unique) simp_all
  moreover have "\<not> 0 \<le> ?e - 19 / 2"
    using e1 by linarith
  ultimately show ?thesis
    unfolding v c_round_def by simp
qed

subsection \<open>A false lock\<close>

lemma uint_not_minus_one: "uint (w :: 32 word) \<noteq> - 1"
proof
  assume "uint w = - 1"
  moreover have "0 \<le> uint w" by simp
  ultimately show False by linarith
qed

text \<open>
  C7. In the state \<^verbatim>\<open>DECODER_DETECT_CALIBRATE\<close>, with no phase guard pending, a sample
  that completes the window with the demodulated value \<open>0\<close> (the end-of-stream symbol)
  puts the decoder into \<^verbatim>\<open>DECODER_INIT\<close>, and the call returns
  \<^verbatim>\<open>DECODER_RET_NO_DATA\<close>, not \<^verbatim>\<open>DECODER_RET_EOF\<close>.
\<close>

theorem false_lock_restarts:
  assumes "state d = DECODER_DETECT_CALIBRATE" and "\<not> sint (phase d) < 0"
    and "fourier_add_sample fp (fourier d) (normalized_sample fp d x) = (fo, True)"
    and "demodulate fp fo = 0"
  shows "state (fst (decoder_decode fp d x)) = DECODER_INIT
         \<and> snd (decoder_decode fp d x) = DECODER_RET_NO_DATA
         \<and> snd (decoder_decode fp d x) \<noteq> DECODER_RET_EOF"
  using assms
  by (simp add: decoder_decode_def detect_calibrate_def decoder_decode_byte_complete [OF assms(3)]
       DECODER_RET_NO_DATA_def DECODER_RET_EOF_def)

theorem false_lock_restarts_witness:
  "state (feed exact decoder_init trace_silent) = DECODER_DETECT_CALIBRATE
   \<and> \<not> sint (phase (feed exact decoder_init trace_silent)) < 0
   \<and> state (fst (decoder_decode exact (feed exact decoder_init trace_silent) 999)) = DECODER_INIT
   \<and> snd (decoder_decode exact (feed exact decoder_init trace_silent) 999) = DECODER_RET_NO_DATA"
proof -
  let ?d = "in_window (tuned 5 5 0) 18 0"
  let ?fo = "(fourier ?d)\<lparr>i := 19\<rparr>"
  have h1: "state ?d = DECODER_DETECT_CALIBRATE" and h2: "\<not> sint (phase ?d) < 0"
    by (simp_all add: tuned_simps)
  have q: "normalized_sample exact ?d 999 = 0"
    by (simp add: tuned_simps)
  have h3: "fourier_add_sample exact (fourier ?d) (normalized_sample exact ?d 999) = (?fo, True)"
    unfolding q by (simp add: fourier_add_sample_zero in_window_def tuned_def locked_def)
  have h4: "demodulate exact ?fo = 0"
    by (rule demodulate_silence) (simp_all add: in_window_def tuned_def locked_def)
  from false_lock_restarts [OF h1 h2 h3 h4] h1 h2 show ?thesis
    unfolding feed_silent by simp
qed

subsection \<open>The normalisation range\<close>

lemma update_magnitude_state: "state (decoder_update_magnitude d x) = state d"
  by (simp add: decoder_update_magnitude_def)

lemma update_magnitude_bounds:
  "uint (signal_max d) \<le> uint (signal_max (decoder_update_magnitude d x))
   \<and> uint x \<le> uint (signal_max (decoder_update_magnitude d x))
   \<and> uint (signal_min (decoder_update_magnitude d x)) \<le> uint (signal_min d)
   \<and> uint (signal_min (decoder_update_magnitude d x)) \<le> uint x"
  by (simp add: decoder_update_magnitude_def word_less_def Let_def)

lemma update_magnitude_range:
  "range_open d \<Longrightarrow> range_open (decoder_update_magnitude d x)"
  using update_magnitude_bounds [of d x] unfolding range_open_def by linarith

lemma first_half_range: "range_open d \<Longrightarrow> range_open (detect_wave_first_half d x)"
  unfolding detect_wave_first_half_def Let_def
  by (rule update_magnitude_range) (simp add: range_open_def count_sample_def)

lemma first_half_state:
  "state (detect_wave_first_half d x) = DECODER_DETECT_WAVE_SECOND_HALF
   \<or> state (detect_wave_first_half d x) = state d"
  by (simp add: detect_wave_first_half_def Let_def update_magnitude_state count_sample_def)

lemma second_half_range: "range_open d \<Longrightarrow> range_open (detect_wave_second_half d x)"
proof -
  assume "range_open d"
  then have "range_open (decoder_update_magnitude (count_sample d) x)"
    by (intro update_magnitude_range) (simp add: range_open_def count_sample_def)
  then show ?thesis
    by (simp add: detect_wave_second_half_def Let_def range_open_def)
qed

lemma detect_polarity_cases:
  "(state (detect_polarity d x) = state d
    \<or> state (detect_polarity d x) = DECODER_DETECT_WAVE_FIRST_HALF
    \<or> state (detect_polarity d x) = DECODER_DETECT_WAVE_SECOND_HALF)
   \<and> (state (detect_polarity d x) = state d \<or> range_open (detect_polarity d x))"
proof -
  let ?diff = "uint x - uint (baseline d)"
  let ?d1 = "decoder_update_magnitude d x"
  show ?thesis
  proof (cases "?diff > TIMING_SIGNAL_THRESHOLD \<or> ?diff < - TIMING_SIGNAL_THRESHOLD")
    case False
    then have "detect_polarity d x
                 = ?d1\<lparr>baseline := word_of_int (uint (baseline ?d1) + ?diff sdiv 8)\<rparr>"
      by (simp add: detect_polarity_def Let_def)
    then show ?thesis
      by (simp add: update_magnitude_state)
  next
    case True
    let ?d2 = "?d1\<lparr>polarity := (?diff > 0), state := DECODER_DETECT_WAVE_FIRST_HALF,
                    signal_max := baseline ?d1, signal_min := baseline ?d1\<rparr>"
    have b: "baseline ?d1 = baseline d"
      by (simp add: decoder_update_magnitude_def)
    have eq: "detect_polarity d x = detect_wave_first_half ?d2 x"
      using True by (simp add: detect_polarity_def Let_def)
    have "range_open (detect_wave_first_half ?d2 x)"
      using True
      by (auto simp add: detect_wave_first_half_def Let_def count_sample_def range_open_def b
            decoder_update_magnitude_def word_less_def TIMING_SIGNAL_THRESHOLD_def)
    with eq first_half_state [of ?d2 x] show ?thesis
      by auto
  qed
qed

lemma tracking_frame:
  "signal_max (fst (detect_calibrate fp d x)) = signal_max d"
  "signal_min (fst (detect_calibrate fp d x)) = signal_min d"
  "signal_max (fst (decode_data fp d x)) = signal_max d"
  "signal_min (fst (decode_data fp d x)) = signal_min d"
  by (simp_all add: detect_calibrate_def decode_data_def Let_def case_prod_beta extra_step_frame
        drift_update_frame decoder_decode_byte_frame)

lemma tracking_state:
  "state (fst (detect_calibrate fp d x)) \<in> {state d, DECODER_INIT, DECODER_DECODE_DATA}"
  "state (fst (decode_data fp d x)) \<in> {state d, DECODER_EOF}"
  by (simp_all add: detect_calibrate_def decode_data_def Let_def case_prod_beta extra_step_frame
        drift_update_frame decoder_decode_byte_frame)

lemma step_range_inv: "range_inv d \<Longrightarrow> range_inv (fst (decoder_decode fp d x))"
proof (cases "state d")
  case DECODER_INIT
  then show ?thesis by (simp add: range_inv_def decoder_decode_def)
next
  case DECODER_DETECT_POLARITY
  with detect_polarity_cases [of d x] show ?thesis
    by (auto simp add: range_inv_def decoder_decode_def)
next
  case DECODER_DETECT_WAVE_FIRST_HALF
  assume "range_inv d"
  with DECODER_DETECT_WAVE_FIRST_HALF show ?thesis
    by (simp add: range_inv_def decoder_decode_def first_half_range)
next
  case DECODER_DETECT_WAVE_SECOND_HALF
  assume "range_inv d"
  with DECODER_DETECT_WAVE_SECOND_HALF show ?thesis
    by (simp add: range_inv_def decoder_decode_def second_half_range)
next
  case DECODER_DETECT_CALIBRATE
  assume "range_inv d"
  with DECODER_DETECT_CALIBRATE show ?thesis
    by (simp add: range_inv_def decoder_decode_def range_open_def tracking_frame)
next
  case DECODER_DECODE_DATA
  assume "range_inv d"
  with DECODER_DECODE_DATA show ?thesis
    by (simp add: range_inv_def decoder_decode_def range_open_def tracking_frame)
next
  case DECODER_EOF
  assume "range_inv d"
  with DECODER_EOF show ?thesis
    by (simp add: decoder_decode_def)
qed

lemma feed_range_inv: "range_inv d \<Longrightarrow> range_inv (feed fp d xs)"
  by (induction xs arbitrary: d) (simp_all add: feed_Nil feed_Cons step_range_inv)

lemma init_range_inv: "range_inv decoder_init"
  by (simp add: range_inv_def decoder_init_def)

text \<open>
  C10. After any samples fed to the decoder of \<^verbatim>\<open>main\<close>, if the state is
  \<^verbatim>\<open>DECODER_DETECT_CALIBRATE\<close> or a later one, \<^verbatim>\<open>signal_max - signal_min\<close> exceeds
  \<open>64\<close>, and the divisor of the normalisation is positive.
\<close>

theorem normalization_range:
  "state_index DECODER_DETECT_CALIBRATE \<le> state_index (state (feed fp decoder_init xs)) \<Longrightarrow>
     64 < uint (signal_max (feed fp decoder_init xs)) - uint (signal_min (feed fp decoder_init xs))
     \<and> 0 < real_of_int (uint (signal_max (feed fp decoder_init xs))
                         - uint (signal_min (feed fp decoder_init xs)))"
proof -
  let ?d = "feed fp decoder_init xs"
  assume "state_index DECODER_DETECT_CALIBRATE \<le> state_index (state ?d)"
  with feed_range_inv [OF init_range_inv, of fp xs]
  have r: "64 < uint (signal_max ?d) - uint (signal_min ?d)"
    by (simp add: range_inv_def range_open_def TIMING_SIGNAL_THRESHOLD_def)
  then have "0 < uint (signal_max ?d) - uint (signal_min ?d)"
    by linarith
  then have "0 < real_of_int (uint (signal_max ?d) - uint (signal_min ?d))"
    by (simp only: of_int_0_less_iff)
  with r show ?thesis
    by blast
qed

theorem normalization_range_witness:
  "state_index DECODER_DETECT_CALIBRATE \<le> state_index (state (feed exact decoder_init acquisition))
   \<and> uint (signal_max (feed exact decoder_init acquisition))
       - uint (signal_min (feed exact decoder_init acquisition)) = 101"
  using normalization_range [of exact acquisition]
  by (simp add: feed_acquisition locked_def)

subsection \<open>The window length\<close>

text \<open>
  C6, as stated: in every reachable state the window length is at least 19. It fails
  after the first sample: \<^verbatim>\<open>DECODER_INIT\<close> sets \<^verbatim>\<open>sample_count\<close> to \<open>0\<close>, and the
  detection states count the samples of the first wave in it.
\<close>

theorem window_length_claim_counterexample:
  "state (feed exact decoder_init [512]) = DECODER_DETECT_POLARITY
   \<and> sint (sample_count (fourier (feed exact decoder_init [512]))) = 0
   \<and> \<not> 19 \<le> sint (sample_count (fourier (feed exact decoder_init [512])))"
  by (simp add: feed_def decoder_decode_def decoder_init_def)

text \<open>
  C6, amended: a call that takes the decoder into \<^verbatim>\<open>DECODER_DETECT_CALIBRATE\<close> from
  another state starts in \<^verbatim>\<open>DECODER_DETECT_WAVE_SECOND_HALF\<close> and leaves a window length
  of at least 19.
\<close>

theorem window_length_on_lock:
  assumes "state d \<noteq> DECODER_DETECT_CALIBRATE"
    and "state (fst (decoder_decode fp d x)) = DECODER_DETECT_CALIBRATE"
  shows "state d = DECODER_DETECT_WAVE_SECOND_HALF
         \<and> 19 \<le> sint (sample_count (fourier (fst (decoder_decode fp d x))))"
proof (cases "state d")
  case DECODER_INIT
  with assms(2) show ?thesis by (simp add: decoder_decode_def)
next
  case DECODER_DETECT_POLARITY
  with assms(2) detect_polarity_cases [of d x] show ?thesis
    by (auto simp add: decoder_decode_def)
next
  case DECODER_DETECT_WAVE_FIRST_HALF
  with assms(2) first_half_state [of d x] show ?thesis
    by (auto simp add: decoder_decode_def)
next
  case DECODER_DETECT_WAVE_SECOND_HALF
  let ?d1 = "decoder_update_magnitude (count_sample d) x"
  have "19 \<le> sint (sample_count (fourier (detect_wave_second_half d x)))"
    if "state (detect_wave_second_half d x) = DECODER_DETECT_CALIBRATE"
  proof (cases "(uint x > (uint (signal_max ?d1) + uint (signal_min ?d1)) sdiv 2) = polarity ?d1")
    case True
    then show ?thesis
      by (simp add: detect_wave_second_half_def Let_def SAMPLE_COUNT_MIN_def BIT_COUNT_def)
  next
    case False
    then have "state (detect_wave_second_half d x) = state d"
      by (simp add: detect_wave_second_half_def Let_def update_magnitude_state count_sample_def)
    with that DECODER_DETECT_WAVE_SECOND_HALF show ?thesis by simp
  qed
  with DECODER_DETECT_WAVE_SECOND_HALF assms(2) show ?thesis
    by (simp add: decoder_decode_def)
next
  case DECODER_DETECT_CALIBRATE
  with assms(1) show ?thesis by simp
next
  case DECODER_DECODE_DATA
  with assms(2) tracking_state(2) [of fp d "normalized_sample fp d x"] show ?thesis
    by (auto simp add: decoder_decode_def)
next
  case DECODER_EOF
  with assms(2) show ?thesis by (simp add: decoder_decode_def)
qed

theorem window_length_on_lock_witness:
  "state (feed exact decoder_init [1000, 1100, 999]) \<noteq> DECODER_DETECT_CALIBRATE
   \<and> state (fst (decoder_decode exact (feed exact decoder_init [1000, 1100, 999]) 1100)) = DECODER_DETECT_CALIBRATE
   \<and> state (feed exact decoder_init [1000, 1100, 999]) = DECODER_DETECT_WAVE_SECOND_HALF
   \<and> sint (sample_count (fourier (fst (decoder_decode exact (feed exact decoder_init [1000, 1100, 999]) 1100)))) = 19"
proof -
  have a: "fst (decoder_decode exact (feed exact decoder_init [1000, 1100, 999]) 1100) = locked"
    using feed_acquisition by (simp add: acquisition_def feed_def)
  have h1: "state (feed exact decoder_init [1000, 1100, 999]) \<noteq> DECODER_DETECT_CALIBRATE"
    by (simp add: feed_three)
  have h2: "state (fst (decoder_decode exact (feed exact decoder_init [1000, 1100, 999]) 1100)) = DECODER_DETECT_CALIBRATE"
    unfolding a by (simp add: locked_def)
  from window_length_on_lock [OF h1 h2] h1 h2 show ?thesis
    unfolding a by (simp add: locked_def)
qed

subsection \<open>Drift correction\<close>

lemma sint16_eq_0: "sint (w :: 16 word) = 0 \<longleftrightarrow> w = 0"
  by (simp add: signed_eq_0_iff)

lemma drift_condition:
  "(phase d \<noteq> 0 \<and> phase2 d \<noteq> 0 \<and> phase3 d \<noteq> 0
      \<and> (sint (phase d) < 0) = (sint (phase2 d) < 0)
      \<and> (sint (phase2 d) < 0) = (sint (phase3 d) < 0))
   \<longleftrightarrow> same_sign_nonzero (sint (phase d)) (sint (phase2 d)) (sint (phase3 d))"
proof -
  have "phase d \<noteq> 0 \<longleftrightarrow> sint (phase d) \<noteq> 0" "phase2 d \<noteq> 0 \<longleftrightarrow> sint (phase2 d) \<noteq> 0"
    "phase3 d \<noteq> 0 \<longleftrightarrow> sint (phase3 d) \<noteq> 0"
    by (simp_all add: sint16_eq_0)
  then show ?thesis
    unfolding same_sign_nonzero_def by linarith
qed

lemma shorten_difference:
  "(word_of_int (sint (n :: 16 word) - a) :: 16 word) = n - word_of_int a"
  by simp

lemma drift_update_spec: "drift_correction_spec d (drift_update d)"
proof (cases "same_sign_nonzero (sint (phase d)) (sint (phase2 d)) (sint (phase3 d))")
  case True
  with drift_condition [of d] have "drift_update d =
      d\<lparr>fourier := (fourier d)\<lparr>sample_count :=
                 word_of_int (sint (sample_count (fourier d))
                              - (sint (phase d) + sint (phase2 d) + sint (phase3 d)) sdiv 3)\<rparr>,
              phase2 := 0\<rparr>"
    unfolding drift_update_def by (simp only: if_True)
  with True show ?thesis
    unfolding drift_correction_spec_def Let_def by (simp only: if_True shorten_difference) simp
next
  case False
  with drift_condition [of d] have "drift_update d = d\<lparr>phase3 := phase2 d, phase2 := phase d\<rparr>"
    unfolding drift_update_def by (simp only: if_False)
  with False show ?thesis
    unfolding drift_correction_spec_def Let_def by (simp only: if_False) simp
qed

lemma drift_correction_spec_cong:
  assumes "sample_count (fourier d2) = sample_count (fourier d3)"
    and "phase2 d2 = phase2 d3" and "phase3 d2 = phase3 d3"
  shows "drift_correction_spec d1 d2 = drift_correction_spec d1 d3"
  unfolding drift_correction_spec_def Let_def using assms by simp

lemma window_complete:
  "fourier_add_sample exact (fourier (in_window (tuned p p2 p3) 18 c))
       (normalized_sample exact (in_window (tuned p p2 p3) 18 c) 999)
     = ((fourier (in_window (tuned p p2 p3) 18 c))\<lparr>i := 19\<rparr>, True)"
proof -
  have q: "normalized_sample exact (in_window (tuned p p2 p3) 18 c) 999 = 0"
    by (simp add: tuned_simps)
  show ?thesis
    unfolding q by (simp add: fourier_add_sample_zero in_window_def tuned_def locked_def)
qed

lemma window_all_bits:
  assumes "1 / 4 < c * c"
  shows "demodulate exact ((fourier (in_window (tuned p p2 p3) 18 c))\<lparr>i := 19\<rparr>) \<noteq> 0"
proof -
  have "demodulate exact ((fourier (in_window (tuned p p2 p3) 18 c))\<lparr>i := 19\<rparr>) = 0x1FF"
    by (rule demodulate_all [where c = c, OF _ _ assms])
      (simp_all add: in_window_def tuned_def locked_def)
  then show ?thesis by simp
qed

text \<open>
  C5, as stated: the history is updated after every completed demodulation. It fails
  when the demodulated value is \<open>0\<close>: after the samples \<open>trace_silent\<close> the history
  is \<open>phase2 = 5\<close>, \<open>phase3 = 0\<close>; the next sample completes a window without signal,
  the measurement is \<open>0\<close>, and the history is left as it was instead of being shifted
  to \<open>phase2 = 0\<close>, \<open>phase3 = 5\<close>.
\<close>

theorem drift_correction_claim_counterexample:
  "tracking (feed exact decoder_init trace_silent)
   \<and> \<not> sint (phase (feed exact decoder_init trace_silent)) < 0
   \<and> snd (fourier_add_sample exact (fourier (feed exact decoder_init trace_silent))
             (normalized_sample exact (feed exact decoder_init trace_silent) 999))
   \<and> phase (fst (decoder_decode_byte exact (feed exact decoder_init trace_silent)
                     (normalized_sample exact (feed exact decoder_init trace_silent) 999))) = 0
   \<and> phase2 (feed exact decoder_init trace_silent) = 5
   \<and> phase3 (feed exact decoder_init trace_silent) = 0
   \<and> phase2 (fst (decoder_decode exact (feed exact decoder_init trace_silent) 999)) = 5
   \<and> phase3 (fst (decoder_decode exact (feed exact decoder_init trace_silent) 999)) = 0
   \<and> \<not> drift_correction_spec
         (fst (decoder_decode_byte exact (feed exact decoder_init trace_silent)
                 (normalized_sample exact (feed exact decoder_init trace_silent) 999)))
         (fst (decoder_decode exact (feed exact decoder_init trace_silent) 999))"
proof -
  let ?d = "in_window (tuned 5 5 0) 18 0"
  have q: "normalized_sample exact ?d 999 = 0"
    by (simp add: tuned_simps)
  have "tracking ?d" "\<not> sint (phase ?d) < 0"
    by (simp_all add: tracking_def tuned_simps)
  moreover have "snd (fourier_add_sample exact (fourier ?d) (normalized_sample exact ?d 999))"
    by (simp add: window_complete)
  moreover have "phase (fst (decoder_decode_byte exact ?d (normalized_sample exact ?d 999))) = 0"
    "phase2 ?d = 5" "phase3 ?d = 0"
    "phase2 (fst (decoder_decode exact ?d 999)) = 5" "phase3 (fst (decoder_decode exact ?d 999)) = 0"
    unfolding q end_silent tuned_end_silent by (simp_all add: tuned_simps)
  moreover have "\<not> drift_correction_spec (fst (decoder_decode_byte exact ?d (normalized_sample exact ?d 999)))
                     (fst (decoder_decode exact ?d 999))"
    unfolding q end_silent tuned_end_silent
    by (simp add: drift_correction_spec_def same_sign_nonzero_def tuned_simps)
  ultimately show ?thesis
    unfolding feed_silent by blast
qed

text \<open>
  C5, amended: in \<^verbatim>\<open>DECODER_DETECT_CALIBRATE\<close> and \<^verbatim>\<open>DECODER_DECODE_DATA\<close>, with no phase
  guard pending, when a sample completes the window and the demodulated value is not
  \<open>0\<close> (a byte, not the end of the stream), the decoder after the call is related to
  the decoder after the demodulation as \<open>drift_correction_spec\<close> says: three nonzero
  measurements of one sign shorten the window by their average and clear \<^verbatim>\<open>phase2\<close>,
  anything else shifts the history. When the demodulated value is \<open>0\<close>, the two
  history slots \<^verbatim>\<open>phase2\<close> and \<^verbatim>\<open>phase3\<close> and the window length are after the call
  what they were before it.
\<close>

theorem drift_correction:
  assumes "tracking d" and "\<not> sint (phase d) < 0"
    and "fourier_add_sample fp (fourier d) (normalized_sample fp d x) = (fo, True)"
  shows "(demodulate fp fo \<noteq> 0 \<longrightarrow>
            drift_correction_spec (fst (decoder_decode_byte fp d (normalized_sample fp d x)))
              (fst (decoder_decode fp d x)))
         \<and> (demodulate fp fo = 0 \<longrightarrow>
              phase2 (fst (decoder_decode fp d x)) = phase2 d
              \<and> phase3 (fst (decoder_decode fp d x)) = phase3 d
              \<and> sample_count (fourier (fst (decoder_decode fp d x))) = sample_count (fourier d))"
proof (cases "demodulate fp fo = 0")
  case False
  let ?fs = "normalized_sample fp d x"
  let ?d1 = "fst (decoder_decode_byte fp d ?fs)"
  let ?byte = "snd (decoder_decode_byte fp d ?fs)"
  have byte: "?byte = uint (demodulate fp fo AND 0xFF)"
    using False by (simp add: decoder_decode_byte_complete [OF assms(3)])
  then have b: "?byte \<noteq> DECODER_RET_EOF" "0 \<le> ?byte"
    by (simp_all add: DECODER_RET_EOF_def uint_not_minus_one)
  have "sample_count (fourier (fst (decoder_decode fp d x))) = sample_count (fourier (drift_update ?d1))
        \<and> phase2 (fst (decoder_decode fp d x)) = phase2 (drift_update ?d1)
        \<and> phase3 (fst (decoder_decode fp d x)) = phase3 (drift_update ?d1)"
    using assms(1,2) b
    by (auto simp add: tracking_def decoder_decode_def detect_calibrate_def decode_data_def
          case_prod_beta Let_def extra_step_frame)
  then have "drift_correction_spec ?d1 (fst (decoder_decode fp d x))
               = drift_correction_spec ?d1 (drift_update ?d1)"
    by (intro drift_correction_spec_cong) simp_all
  with False show ?thesis
    by (simp add: drift_update_spec)
next
  case True
  let ?fs = "normalized_sample fp d x"
  let ?d1 = "fst (decoder_decode_byte fp d ?fs)"
  let ?byte = "snd (decoder_decode_byte fp d ?fs)"
  have byte: "?byte = DECODER_RET_EOF"
    using True by (simp add: decoder_decode_byte_complete [OF assms(3)])
  then have b: "\<not> 0 \<le> ?byte"
    by (simp add: DECODER_RET_EOF_def)
  have "sample_count (fourier (fst (decoder_decode fp d x))) = sample_count (fourier ?d1)
        \<and> phase2 (fst (decoder_decode fp d x)) = phase2 ?d1
        \<and> phase3 (fst (decoder_decode fp d x)) = phase3 ?d1"
    using assms(1,2) byte b
    by (auto simp add: tracking_def decoder_decode_def detect_calibrate_def decode_data_def
          case_prod_beta Let_def)
  with True show ?thesis
    by (simp add: decoder_decode_byte_frame)
qed

theorem drift_correction_witness:
  "tracking (feed exact decoder_init trace_pilot)
   \<and> \<not> sint (phase (feed exact decoder_init trace_pilot)) < 0
   \<and> drift_correction_spec
         (fst (decoder_decode_byte exact (feed exact decoder_init trace_pilot)
                 (normalized_sample exact (feed exact decoder_init trace_pilot) 999)))
         (fst (decoder_decode exact (feed exact decoder_init trace_pilot) 999))
   \<and> phase2 (fst (decoder_decode exact (feed exact decoder_init trace_pilot) 999)) = 5
   \<and> phase3 (fst (decoder_decode exact (feed exact decoder_init trace_pilot) 999)) = 0
   \<and> sample_count (fourier (fst (decoder_decode exact (feed exact decoder_init trace_pilot) 999))) = 19
   \<and> tracking (feed exact decoder_init trace_drift)
   \<and> \<not> sint (phase (feed exact decoder_init trace_drift)) < 0
   \<and> drift_correction_spec
         (fst (decoder_decode_byte exact (feed exact decoder_init trace_drift)
                 (normalized_sample exact (feed exact decoder_init trace_drift) 999)))
         (fst (decoder_decode exact (feed exact decoder_init trace_drift) 999))
   \<and> phase2 (fst (decoder_decode exact (feed exact decoder_init trace_drift) 999)) = 0
   \<and> phase3 (fst (decoder_decode exact (feed exact decoder_init trace_drift) 999)) = - 5
   \<and> sample_count (fourier (fst (decoder_decode exact (feed exact decoder_init trace_drift) 999))) = 24
   \<and> tracking (feed exact decoder_init trace_silent)
   \<and> \<not> sint (phase (feed exact decoder_init trace_silent)) < 0
   \<and> phase2 (feed exact decoder_init trace_silent) = 5
   \<and> phase3 (feed exact decoder_init trace_silent) = 0
   \<and> sample_count (fourier (feed exact decoder_init trace_silent)) = 19
   \<and> phase2 (fst (decoder_decode exact (feed exact decoder_init trace_silent) 999)) = 5
   \<and> phase3 (fst (decoder_decode exact (feed exact decoder_init trace_silent) 999)) = 0
   \<and> sample_count (fourier (fst (decoder_decode exact (feed exact decoder_init trace_silent) 999))) = 19"
proof -
  let ?d = "in_window (tuned 0 0 0) 18 (25 / 19)"
  let ?e = "in_window (tuned 0 (- 5) (- 5)) 18 (- (25 / 19))"
  let ?s = "in_window (tuned 5 5 0) 18 0"
  have d: "tracking ?d" "\<not> sint (phase ?d) < 0"
    by (simp_all add: tracking_def tuned_simps)
  have e: "tracking ?e" "\<not> sint (phase ?e) < 0"
    by (simp_all add: tracking_def tuned_simps)
  have s: "tracking ?s" "\<not> sint (phase ?s) < 0"
    by (simp_all add: tracking_def tuned_simps)
  have dn: "demodulate exact ((fourier ?d)\<lparr>i := 19\<rparr>) \<noteq> 0"
    by (rule window_all_bits) simp
  have en: "demodulate exact ((fourier ?e)\<lparr>i := 19\<rparr>) \<noteq> 0"
    by (rule window_all_bits) simp
  have sn: "demodulate exact ((fourier ?s)\<lparr>i := 19\<rparr>) = 0"
    by (rule demodulate_silence) (simp_all add: in_window_def tuned_def locked_def)
  have dv: "phase2 (fst (decoder_decode exact ?d 999)) = 5" "phase3 (fst (decoder_decode exact ?d 999)) = 0"
    "sample_count (fourier (fst (decoder_decode exact ?d 999))) = 19"
    by (simp_all add: end_up tuned_simps)
  have ev: "phase2 (fst (decoder_decode exact ?e 999)) = 0" "phase3 (fst (decoder_decode exact ?e 999)) = - 5"
    "sample_count (fourier (fst (decoder_decode exact ?e 999))) = 24"
    by (simp_all add: end_down_drift retuned_def tuned_simps)
  have sv: "phase2 ?s = 5" "phase3 ?s = 0" "sample_count (fourier ?s) = 19"
    by (simp_all add: tuned_simps)
  from drift_correction [OF d window_complete] drift_correction [OF e window_complete]
    drift_correction [OF s window_complete] d e s dn en sn dv ev sv
  show ?thesis
    unfolding feed_pilot feed_drift feed_silent by simp
qed

subsection \<open>Drift correction below the floor of the window length\<close>

text \<open>
  The floor \<^verbatim>\<open>SAMPLE_COUNT_MIN\<close> is applied when the decoder locks, not when the drift
  is corrected. In the run \<open>trace_shrink\<close>, computed in the arithmetic \<open>exact\<close>,
  three windows in a row measure a phase between 5 and 9 samples, and the correction
  takes the window from 19 samples to at most 14.
\<close>

lemma nsin_late: "nsin exact (18 / 19) < 0"
proof -
  have "pi < 18 / 19 * 2 * pi" "18 / 19 * 2 * pi < 2 * pi"
    using pi_gt_zero by simp_all
  then show ?thesis
    unfolding nsin_exact by (rule sin_lt_zero)
qed

lemma ncos_late: "0 < ncos exact (18 / 19)"
proof -
  have e: "(18 / 19 + 0.25) * 2 * pi = 15 / 38 * pi + 2 * pi"
    by (simp add: field_simps)
  have "0 < 15 / 38 * pi" "15 / 38 * pi < pi"
    using pi_gt_zero by simp_all
  then have "0 < sin (15 / 38 * pi)"
    by (rule sin_gt_zero)
  then show ?thesis
    unfolding ncos_exact nsin_exact e by (simp only: sin_periodic)
qed

lemma atan2_second_quadrant:
  assumes "x < 0" and "0 < y"
  shows "pi / 2 < atan2 y x \<and> atan2 y x < pi"
proof -
  have "y / x < 0"
    using assms by (simp add: divide_pos_neg)
  then have "arctan (y / x) < 0"
    by simp
  moreover have "- (pi / 2) < arctan (y / x)"
    by (rule arctan_lbound)
  moreover have "atan2 y x = arctan (y / x) + pi"
    using assms by (simp add: atan2_def)
  ultimately show ?thesis
    by simp
qed

lemma early_phase:
  assumes "x < 0" and "0 < y"
  shows "5 \<le> c_round (sincos_to_phase exact x y * 19) \<and> c_round (sincos_to_phase exact x y * 19) \<le> 9"
proof -
  have p: "0 < 2 * pi"
    using pi_gt_zero by simp
  have "1 / 4 * (2 * pi) < atan2 y x" "atan2 y x < 1 / 2 * (2 * pi)"
    using atan2_second_quadrant [OF assms] by simp_all
  then have "1 / 4 < atan2 y x / (2 * pi)" "atan2 y x / (2 * pi) < 1 / 2"
    by (simp_all only: pos_less_divide_eq [OF p] pos_divide_less_eq [OF p])
  then have "19 / 4 < sincos_to_phase exact x y * 19" "sincos_to_phase exact x y * 19 < 19 / 2"
    unfolding sincos_to_phase_exact by linarith+
  then show ?thesis
    unfolding c_round_def by (auto simp: le_floor_iff floor_le_iff)
qed

lemma add_carrier_nth:
  "f < length sc \<Longrightarrow> add_carrier exact fo s f sc ! f =
     (fst (sc ! f) + nsin exact (real_of_int (int (carrier_cycles f) * sint (i fo))
                                  / real_of_int (sint (sample_count fo))) * s * 25
                             / real_of_int (sint (sample_count fo)),
      snd (sc ! f) + ncos exact (real_of_int (int (carrier_cycles f) * sint (i fo))
                                  / real_of_int (sint (sample_count fo))) * s * 25
                             / real_of_int (sint (sample_count fo)))"
  by (simp add: add_carrier_exact Let_def)

lemma add_carrier_other: "g \<noteq> f \<Longrightarrow> add_carrier exact fo s f sc ! g = sc ! g"
  by (simp add: add_carrier_exact Let_def)

lemma length_add_carrier: "length (add_carrier exact fo s f sc) = length sc"
  by (simp add: add_carrier_exact Let_def)

lemma length_fold_add_carrier: "length (fold (add_carrier exact fo s) fs sc) = length sc"
  by (induction fs arbitrary: sc) (simp_all add: length_add_carrier)

lemma fold_add_carrier_untouched:
  "g \<notin> set fs \<Longrightarrow> fold (add_carrier exact fo s) fs sc ! g = sc ! g"
  by (induction fs arbitrary: sc) (auto simp add: add_carrier_other)

lemma fold_clear:
  "length sc = n \<Longrightarrow> fold (\<lambda>f sc. sc[f := v]) [0..<n] sc = replicate n v"
proof -
  have len: "length (fold (\<lambda>f sc. sc[f := v]) fs sc) = length sc" for fs and sc :: "'a list"
    by (induction fs arbitrary: sc) simp_all
  have nth: "fold (\<lambda>f sc. sc[f := v]) fs sc ! g = (if g \<in> set fs then v else sc ! g)"
    if "g < length sc" for fs g and sc :: "'a list"
    using that by (induction fs arbitrary: sc) (auto simp add: nth_list_update len)
  assume "length sc = n"
  then show ?thesis
    by (intro nth_equalityI) (simp_all add: len nth)
qed

lemma drift_update_alt:
  "drift_update d =
     (if same_sign_nonzero (sint (phase d)) (sint (phase2 d)) (sint (phase3 d))
      then d\<lparr>fourier := (fourier d)\<lparr>sample_count :=
                 word_of_int (sint (sample_count (fourier d))
                              - (sint (phase d) + sint (phase2 d) + sint (phase3 d)) sdiv 3)\<rparr>,
              phase2 := 0\<rparr>
      else d\<lparr>phase3 := phase2 d, phase2 := phase d\<rparr>)"
  unfolding drift_update_def drift_condition ..

lemma primed_levels:
  assumes "polarity d" "signal_min d = 999" "signal_max d = 1100"
  shows "normalized_sample exact d 999 = 0" "normalized_sample exact d 1100 = 1"
  using assms by (simp_all add: normalized_sample_exact)

lemma power_above:
  assumes "1 < y"
  shows "1 / 4 < quad exact x + quad exact y"
proof -
  have "1 * 1 < y * y"
    using assms by (intro mult_strict_mono) simp_all
  moreover have "0 \<le> x * x"
    by simp
  ultimately show ?thesis
    unfolding quad_exact by linarith
qed

text \<open>The sample that ends a primed window and is itself a full-scale sample\<close>

lemma closing_spike:
  assumes "frequency_count (fourier d) = 9" and "sample_count (fourier d) = 19"
    and "i (fourier d) = 18" and "sincos_components (fourier d) = replicate 9 (0, 25 / 19)"
  shows "\<exists>p byte. decoder_decode_byte exact d 1
           = (d\<lparr>phase := p,
                 fourier := (fourier d)\<lparr>sincos_components := replicate 9 (0, 0), i := 0\<rparr>\<rparr>, byte)
           \<and> 5 \<le> sint p \<and> sint p \<le> 9 \<and> 0 \<le> byte"
proof -
  let ?sc = "fold (add_carrier exact (fourier d) 1) [0..<9] (replicate 9 (0, 25 / 19))"
  let ?fo = "(fourier d)\<lparr>sincos_components := ?sc, i := 19\<rparr>"
  have add: "fourier_add_sample exact (fourier d) 1 = (?fo, True)"
    by (simp add: fourier_add_sample_def carriers_9 assms)
  have "?sc ! 0 = add_carrier exact (fourier d) 1 0 (replicate 9 (0, 25 / 19)) ! 0"
    by (simp add: upt_rec [of 0 9] fold_add_carrier_untouched)
  also have "\<dots> = (nsin exact (18 / 19) * 25 / 19, 25 / 19 + ncos exact (18 / 19) * 25 / 19)"
    by (simp add: add_carrier_nth assms carrier_cycles_def)
  finally have pilot: "?sc ! 0 = (nsin exact (18 / 19) * 25 / 19, 25 / 19 + ncos exact (18 / 19) * 25 / 19)" .
  let ?x = "nsin exact (18 / 19) * 25 / 19" and ?y = "25 / 19 + ncos exact (18 / 19) * 25 / 19"
  have x: "?x < 0"
    using nsin_late by (simp add: field_simps)
  have y: "25 / 19 < ?y"
    using ncos_late by simp
  then have y0: "0 < ?y"
    by linarith
  have "1 / 4 < quad exact ?x + quad exact ?y"
    by (rule power_above) (use y in linarith)
  moreover have sel: "sincos_components ?fo = ?sc"
    by simp
  have "carrier_power exact ?fo 0 = quad exact ?x + quad exact ?y"
    unfolding carrier_power_exact sel pilot by (simp only: fst_conv snd_conv)
  ultimately have "1 / 4 < carrier_power exact ?fo 0"
    by (simp only:)
  then have b8: "bit (demodulate exact ?fo) (8 - 0)"
    by (subst demodulate_carrier_bit) (simp_all add: assms)
  then have nz: "demodulate exact ?fo \<noteq> 0"
    by auto
  have rs: "fourier_reset ?fo = (fourier d)\<lparr>sincos_components := replicate 9 (0, 0), i := 0\<rparr>"
    by (simp add: fourier_reset_def carriers_9 assms fold_clear length_fold_add_carrier)
  have "sint (pilot_phase exact ?fo) = c_round (sincos_to_phase exact ?x ?y * 19)"
    using phase_fits [of ?x ?y "19"] by (simp add: pilot_phase_exact pilot assms)
  with early_phase [OF x y0]
  have ph: "5 \<le> sint (pilot_phase exact ?fo)" "sint (pilot_phase exact ?fo) \<le> 9"
    by simp_all
  have "decoder_decode_byte exact d 1
          = (d\<lparr>phase := pilot_phase exact ?fo,
                fourier := (fourier d)\<lparr>sincos_components := replicate 9 (0, 0), i := 0\<rparr>\<rparr>,
             uint (demodulate exact ?fo AND 0xFF))"
    unfolding decoder_decode_byte_complete [OF add] rs using b8 nz by simp
  with ph show ?thesis
    by (intro exI [of _ "pilot_phase exact ?fo"] exI [of _ "uint (demodulate exact ?fo AND 0xFF)"]) simp
qed

lemma ripen:
  assumes "primed d" and "\<not> sint (phase d) < 0"
  shows "feed exact d (replicate 17 999) = d\<lparr>fourier := (fourier d)\<lparr>i := 18\<rparr>\<rparr>"
proof -
  have "feed exact d (replicate 17 999)
          = d\<lparr>fourier := (fourier d)\<lparr>i := i (fourier d) + of_nat 17\<rparr>\<rparr>"
    using assms by (intro quiet_feed) (simp_all add: primed_def primed_levels)
  with assms(1) show ?thesis
    by (simp add: primed_def)
qed

text \<open>A call in a tracking state whose demodulation yields a byte\<close>

lemma tracking_byte_step:
  assumes "tracking d" and "\<not> sint (phase d) < 0"
    and "decoder_decode_byte exact d (normalized_sample exact d x) = (d1, byte)" and "0 \<le> byte"
  shows "\<exists>st. (st = DECODER_DETECT_CALIBRATE \<or> st = DECODER_DECODE_DATA)
            \<and> fst (decoder_decode exact d x)
                = extra_step exact ((drift_update d1)\<lparr>state := st\<rparr>) (normalized_sample exact d x)"
proof -
  have st1: "state d1 = state d"
    using decoder_decode_byte_frame(1) [of exact d "normalized_sample exact d x"] assms(3) by simp
  have ne: "byte \<noteq> DECODER_RET_EOF"
    using assms(4) by (simp add: DECODER_RET_EOF_def)
  have same: "(drift_update d1)\<lparr>state := state d\<rparr> = drift_update d1"
    using st1 drift_update_frame(1) [of d1] by simp
  from assms(1) show ?thesis
    unfolding tracking_def
  proof
    assume c: "state d = DECODER_DETECT_CALIBRATE"
    show ?thesis
    proof (cases "byte = 0x3E")
      case True
      with c assms ne have "fst (decoder_decode exact d x)
          = extra_step exact ((drift_update d1)\<lparr>state := DECODER_DECODE_DATA\<rparr>) (normalized_sample exact d x)"
        by (simp add: decoder_decode_def detect_calibrate_def)
      then show ?thesis by blast
    next
      case False
      with c assms ne same have "fst (decoder_decode exact d x)
          = extra_step exact ((drift_update d1)\<lparr>state := DECODER_DETECT_CALIBRATE\<rparr>) (normalized_sample exact d x)"
        by (simp add: decoder_decode_def detect_calibrate_def)
      then show ?thesis by blast
    qed
  next
    assume c: "state d = DECODER_DECODE_DATA"
    with assms ne same have "fst (decoder_decode exact d x)
          = extra_step exact ((drift_update d1)\<lparr>state := DECODER_DECODE_DATA\<rparr>) (normalized_sample exact d x)"
      by (simp add: decoder_decode_def decode_data_def)
    then show ?thesis by blast
  qed
qed

lemma round_up_step:
  assumes "primed d" and "\<not> sint (phase d) < 0"
  shows "\<exists>p st. (st = DECODER_DETECT_CALIBRATE \<or> st = DECODER_DECODE_DATA)
           \<and> 5 \<le> sint p \<and> sint p \<le> 9
           \<and> feed exact d round_up
               = extra_step exact
                   ((drift_update
                       (d\<lparr>phase := p,
                          fourier := (fourier d)\<lparr>sincos_components := replicate 9 (0, 0),
                                                  i := 0\<rparr>\<rparr>))\<lparr>state := st\<rparr>) 1"
proof -
  let ?e = "d\<lparr>fourier := (fourier d)\<lparr>i := 18\<rparr>\<rparr>"
  have e: "tracking ?e" "\<not> sint (phase ?e) < 0" "normalized_sample exact ?e 1100 = 1"
    using assms by (simp_all add: primed_def tracking_def normalized_sample_exact)
  obtain p byte where pb: "decoder_decode_byte exact ?e 1
           = (?e\<lparr>phase := p,
                 fourier := (fourier ?e)\<lparr>sincos_components := replicate 9 (0, 0), i := 0\<rparr>\<rparr>, byte)"
      "5 \<le> sint p" "sint p \<le> 9" "0 \<le> byte"
    using closing_spike [of ?e] assms(1) by (auto simp add: primed_def)
  have same: "?e\<lparr>phase := p,
                 fourier := (fourier ?e)\<lparr>sincos_components := replicate 9 (0, 0), i := 0\<rparr>\<rparr>
        = d\<lparr>phase := p, fourier := (fourier d)\<lparr>sincos_components := replicate 9 (0, 0), i := 0\<rparr>\<rparr>"
    by simp
  from tracking_byte_step [OF e(1,2), of 1100] pb(1,4) e(3)
  obtain st where st: "st = DECODER_DETECT_CALIBRATE \<or> st = DECODER_DECODE_DATA"
      "fst (decoder_decode exact ?e 1100)
         = extra_step exact ((drift_update (d\<lparr>phase := p,
              fourier := (fourier d)\<lparr>sincos_components := replicate 9 (0, 0), i := 0\<rparr>\<rparr>))\<lparr>state := st\<rparr>) 1"
    unfolding same by auto
  have "feed exact d round_up = fst (decoder_decode exact ?e 1100)"
    unfolding round_up_def feed_append ripen [OF assms] by (simp add: feed_Cons feed_Nil)
  with st pb(2,3) show ?thesis
    by metis
qed


lemma restart_window:
  assumes "0 < sint (phase d)" and "i (fourier d) = 0" and "frequency_count (fourier d) = 9"
    and "sincos_components (fourier d) = replicate 9 (0, 0)" and "sample_count (fourier d) = 19"
  shows "extra_step exact d 1
           = d\<lparr>fourier := (fourier d)\<lparr>sincos_components := replicate 9 (0, 25 / 19), i := 1\<rparr>\<rparr>"
proof -
  have "fourier_add_sample exact (fourier d) 1
          = ((fourier d)\<lparr>sincos_components := replicate 9 (0, 25 / 19), i := 1\<rparr>, False)"
    by (simp add: fourier_add_sample_start [OF assms(2,3,4)] assms(5))
  from decoder_decode_byte_incomplete [OF this] assms(1) show ?thesis
    by (simp add: extra_step_def)
qed

text \<open>A round that only shifts the history\<close>

lemma round_up_shift:
  assumes "primed d" and "\<not> sint (phase d) < 0" and "phase2 d = 0 \<or> phase3 d = 0"
  shows "primed (feed exact d round_up)
         \<and> 5 \<le> sint (phase (feed exact d round_up)) \<and> sint (phase (feed exact d round_up)) \<le> 9
         \<and> phase2 (feed exact d round_up) = phase (feed exact d round_up)
         \<and> phase3 (feed exact d round_up) = phase2 d"
proof -
  obtain p st where r: "st = DECODER_DETECT_CALIBRATE \<or> st = DECODER_DECODE_DATA"
      "5 \<le> sint p" "sint p \<le> 9"
      "feed exact d round_up
         = extra_step exact
             ((drift_update
                 (d\<lparr>phase := p,
                    fourier := (fourier d)\<lparr>sincos_components := replicate 9 (0, 0),
                                            i := 0\<rparr>\<rparr>))\<lparr>state := st\<rparr>) 1"
    using round_up_step [OF assms(1,2)] by blast
  let ?d1 = "d\<lparr>phase := p,
                fourier := (fourier d)\<lparr>sincos_components := replicate 9 (0, 0), i := 0\<rparr>\<rparr>"
  have "\<not> same_sign_nonzero (sint (phase ?d1)) (sint (phase2 ?d1)) (sint (phase3 ?d1))"
    using assms(3) by (auto simp add: same_sign_nonzero_def)
  then have u: "drift_update ?d1 = ?d1\<lparr>phase3 := phase2 ?d1, phase2 := phase ?d1\<rparr>"
    by (simp only: drift_update_alt if_False)
  let ?d3 = "(drift_update ?d1)\<lparr>state := st\<rparr>"
  have "extra_step exact ?d3 1
          = ?d3\<lparr>fourier := (fourier ?d3)\<lparr>sincos_components := replicate 9 (0, 25 / 19), i := 1\<rparr>\<rparr>"
    using assms(1) r(2) by (intro restart_window) (simp_all add: u primed_def)
  with r assms(1) show ?thesis
    by (auto simp add: u primed_def tracking_def)
qed

text \<open>A round that corrects the drift\<close>

lemma round_up_shrink:
  assumes "primed d" and "\<not> sint (phase d) < 0"
    and "5 \<le> sint (phase2 d)" "sint (phase2 d) \<le> 9"
    and "5 \<le> sint (phase3 d)" "sint (phase3 d) \<le> 9"
  shows "tracking (feed exact d round_up)
         \<and> sint (sample_count (fourier (feed exact d round_up))) \<le> 14"
proof -
  obtain p st where r: "st = DECODER_DETECT_CALIBRATE \<or> st = DECODER_DECODE_DATA"
      "5 \<le> sint p" "sint p \<le> 9"
      "feed exact d round_up
         = extra_step exact
             ((drift_update
                 (d\<lparr>phase := p,
                    fourier := (fourier d)\<lparr>sincos_components := replicate 9 (0, 0),
                                            i := 0\<rparr>\<rparr>))\<lparr>state := st\<rparr>) 1"
    using round_up_step [OF assms(1,2)] by blast
  let ?d1 = "d\<lparr>phase := p,
                fourier := (fourier d)\<lparr>sincos_components := replicate 9 (0, 0), i := 0\<rparr>\<rparr>"
  let ?avg = "(sint p + sint (phase2 d) + sint (phase3 d)) sdiv 3"
  have "same_sign_nonzero (sint (phase ?d1)) (sint (phase2 ?d1)) (sint (phase3 ?d1))"
    using assms(3,5) r(2) by (simp add: same_sign_nonzero_def)
  then have u: "drift_update ?d1 =
      ?d1\<lparr>fourier := (fourier ?d1)\<lparr>sample_count :=
                 word_of_int (sint (sample_count (fourier ?d1))
                              - (sint (phase ?d1) + sint (phase2 ?d1) + sint (phase3 ?d1)) sdiv 3)\<rparr>,
              phase2 := 0\<rparr>"
    by (simp only: drift_update_alt if_True)
  have sum: "15 \<le> sint p + sint (phase2 d) + sint (phase3 d)"
      "sint p + sint (phase2 d) + sint (phase3 d) \<le> 27"
    using assms(3-6) r(2,3) by linarith+
  then have "?avg = (sint p + sint (phase2 d) + sint (phase3 d)) div 3"
    by (simp add: signed_divide_int_def sgn_if)
  with sum have avg: "5 \<le> ?avg" "?avg \<le> 9"
    by linarith+
  have n: "sample_count (fourier (feed exact d round_up)) = word_of_int (19 - ?avg)"
    using assms(1) by (simp add: r(4) extra_step_frame u primed_def)
  have "sint (word_of_int (19 - ?avg) :: 16 word) = 19 - ?avg"
    using avg by (intro sint16_of_int) linarith+
  with avg n have "sint (sample_count (fourier (feed exact d round_up))) \<le> 14"
    by simp
  moreover have "tracking (feed exact d round_up)"
    using r(1) by (auto simp add: r(4) tracking_def extra_step_frame)
  ultimately show ?thesis
    by blast
qed

lemma feed_primed: "feed exact decoder_init (acquisition @ [1100]) = in_window (tuned 0 0 0) 1 (25 / 19)"
proof -
  have "decoder_decode exact (tuned 0 0 0) 1100
          = ((tuned 0 0 0)\<lparr>fourier := (fourier (tuned 0 0 0))\<lparr>sincos_components :=
                    replicate 9 (0, normalized_sample exact (tuned 0 0 0) 1100 * 25
                                     / real_of_int (sint (sample_count (fourier (tuned 0 0 0))))),
                  i := 1\<rparr>\<rparr>,
              DECODER_RET_NO_DATA)"
    by (rule spike_step) (simp_all add: tuned_def locked_def tracking_def BIT_COUNT_def)
  then show ?thesis
    unfolding feed_append feed_locked
    by (simp add: feed_Cons feed_Nil in_window_def tuned_def locked_def normalized_sample_exact)
qed

lemma drift_shrinks_window:
  "tracking (feed exact decoder_init trace_shrink)
   \<and> sint (sample_count (fourier (feed exact decoder_init trace_shrink))) \<le> 14"
proof -
  let ?e0 = "feed exact decoder_init (acquisition @ [1100])"
  let ?e1 = "feed exact ?e0 round_up"
  let ?e2 = "feed exact ?e1 round_up"
  have e0: "primed ?e0" "\<not> sint (phase ?e0) < 0" "phase2 ?e0 = 0"
    unfolding feed_primed
    by (simp_all add: primed_def in_window_def tuned_def locked_def tracking_def)
  from round_up_shift [OF e0(1,2)] e0(3)
  have e1: "primed ?e1" "5 \<le> sint (phase ?e1)" "sint (phase ?e1) \<le> 9"
    "phase2 ?e1 = phase ?e1" "phase3 ?e1 = 0"
    by simp_all
  then have "\<not> sint (phase ?e1) < 0" "phase2 ?e1 = 0 \<or> phase3 ?e1 = 0"
    by simp_all
  from round_up_shift [OF e1(1) this] e1
  have e2: "primed ?e2" "5 \<le> sint (phase ?e2)" "sint (phase ?e2) \<le> 9"
    "5 \<le> sint (phase2 ?e2)" "sint (phase2 ?e2) \<le> 9"
    "5 \<le> sint (phase3 ?e2)" "sint (phase3 ?e2) \<le> 9"
    by simp_all
  then have "\<not> sint (phase ?e2) < 0"
    by simp
  from round_up_shrink [OF e2(1) this e2(4-7)]
  have "tracking (feed exact ?e2 round_up) \<and> sint (sample_count (fourier (feed exact ?e2 round_up))) \<le> 14" .
  moreover have "feed exact decoder_init trace_shrink = feed exact ?e2 round_up"
    unfolding trace_shrink_def by (simp only: feed_append)
  ultimately show ?thesis
    by simp
qed

section \<open>The round trip\<close>

text \<open>
  C1. The round trip fails. The frame of any byte sequence contains the calibration
  symbols, whose samples reach \<open>-1\<close>, and \<^verbatim>\<open>write_sample\<close> converts the negative
  product to \<^verbatim>\<open>uint32_t\<close>, which is undefined: the encoder has no defined output that
  the decoder could be run on. For the byte \<^verbatim>\<open>0xFF\<close> the data symbol moreover exceeds
  the amplitude \<open>1\<close> at the gain \<open>0.16\<close> of the encoder and is clipped.
\<close>

theorem round_trip_fails:
  "encode_frame bs = Inl Undefined_conversion
   \<and> \<not> round_trip fp bs
   \<and> 1 < symbol_sample 0.16 (ucast (0xFF :: 8 word) OR SYNC_SIGNAL) 1"
  using encode_frame_undefined [of bs] all_tones_clip(1)
  by (simp add: round_trip_def)

end
